theory Spec2Isabelle
  imports Main "HOL-Library.Word" "HOL-Library.AList" "HOL-Library.Sublist"
begin

unbundle bit_operations_syntax

section \<open>Outcomes that are not a normal return\<close>

text \<open>
  The C++ code leaves a function in four abnormal ways: it throws \<open>FbossError\<close>
  (which a caller may catch), it fails a \<open>CHECK\<close>, it reaches \<open>LOG(FATAL)\<close> or
  \<open>bcmLogFatal\<close> with a failed return code (all three abort the process), or it
  dereferences a null pointer. \<open>TypeError\<close> is what \<open>folly::dynamic\<close> throws when a
  value is read at the wrong type or an object key is missing.
\<close>

datatype error =
    FbossError string
  | CheckFailed string
  | LogFatal string
  | NullDereference
  | TypeError string

section \<open>Hardware identities and SDK records\<close>

type_synonym opennsl_vrf_t = int
type_synonym EgressId = int
type_synonym VlanID = int
type_synonym InterfaceID = int
type_synonym PortID = int
type_synonym MacAddress = "48 word"

text \<open>
  \<open>EgressIds\<close> is a \<open>boost::container::flat_set\<close> of egress ids: a sorted vector
  without duplicates. It is modelled as that vector; insertion is
  \<open>insort_insert\<close> and equality of two sets is equality of the vectors.
\<close>

type_synonym EgressIds = "EgressId list"

text \<open>\<open>folly::IPAddress\<close>: an IPv4 address (32 bits) or an IPv6 address (16 bytes).\<close>

datatype IPAddress = V4 "32 word" | V6 "128 word"

text \<open>
  The flag bits of the SDK headers are not part of the sources at hand; the
  functions that test them take the bit masks as a parameter.
\<close>

record sdk_flags =
  OPENNSL_L3_IP6 :: "32 word"
  OPENNSL_L3_DST_DISCARD :: "32 word"
  OPENNSL_L3_L2TOCPU :: "32 word"
  OPENNSL_L3_COPY_TO_CPU :: "32 word"

text \<open>The fields of the SDK records that the code reads or writes.\<close>

record opennsl_l3_host_t =
  host_l3a_flags :: "32 word"
  host_l3a_vrf :: opennsl_vrf_t
  host_l3a_ip_addr :: "32 word"
  host_l3a_ip6_addr :: "128 word"
  host_l3a_intf :: EgressId

record opennsl_l3_route_t =
  route_l3a_flags :: "32 word"
  route_l3a_vrf :: opennsl_vrf_t
  route_l3a_subnet :: "32 word"
  route_l3a_ip_mask :: "32 word"
  route_l3a_ip6_net :: "128 word"
  route_l3a_ip6_mask :: "128 word"
  route_l3a_intf :: EgressId

record opennsl_l3_egress_t =
  egress_flags :: "32 word"
  egress_vlan :: VlanID
  egress_intf :: InterfaceID
  egress_mac_addr :: MacAddress
  egress_port :: PortID

record opennsl_l3_egress_ecmp_t =
  ecmp_intf :: EgressId
  ecmp_max_paths :: int

record opennsl_l3_intf_t =
  l3a_vid :: VlanID
  l3a_vrf :: opennsl_vrf_t
  l3a_mac_addr :: MacAddress
  l3a_mtu :: int

record opennsl_l2_station_t =
  station_dst_mac :: MacAddress
  station_flags :: "32 word"

text \<open>
  A port bitmap is modelled by the list of its member ports in the ascending
  order in which \<open>OPENNSL_PBMP_ITER\<close> visits them.
\<close>

type_synonym opennsl_pbmp_t = "PortID list"

record VlanInfo =
  vi_vlan :: VlanID
  vi_untagged :: opennsl_pbmp_t
  vi_allPorts :: opennsl_pbmp_t
  vi_intfID :: InterfaceID

section \<open>The software switch state\<close>

text \<open>
  The state classes (\<open>SwitchState\<close>, \<open>VlanMap\<close>, \<open>Vlan\<close>, \<open>ArpTable\<close>,
  \<open>NdpTable\<close>, \<open>InterfaceMap\<close>, \<open>Interface\<close>) live in other files. They are
  node maps keyed by id; only the fields this file touches are kept.
\<close>

datatype NeighborState = UNVERIFIED | REACHABLE | PENDING

datatype NeighborEntry =
    ResolvedEntry MacAddress PortID InterfaceID NeighborState
  | PendingEntry InterfaceID

type_synonym ArpTable = "(32 word \<times> NeighborEntry) list"
type_synonym NdpTable = "(128 word \<times> NeighborEntry) list"

record Vlan =
  vlan_id :: VlanID
  vlan_name :: string
  vlan_ports :: "(PortID \<times> bool) list"
  vlan_interfaceID :: InterfaceID
  vlan_arpTable :: ArpTable
  vlan_ndpTable :: NdpTable

type_synonym VlanMap = "(VlanID \<times> Vlan) list"

record Interface =
  if_id :: InterfaceID
  if_routerID :: opennsl_vrf_t
  if_vlanID :: VlanID
  if_name :: string
  if_mac :: MacAddress
  if_mtu :: int
  if_addresses :: "(IPAddress \<times> nat) list"

type_synonym InterfaceMap = "(InterfaceID \<times> Interface) list"

text \<open>
  \<open>getInterfaces()\<close> and \<open>getVlans()\<close> return shared pointers; \<open>None\<close> is the
  null pointer.
\<close>

record SwitchState =
  getInterfaces :: "InterfaceMap option"
  getVlans :: "VlanMap option"

section \<open>The warm boot cache\<close>

text \<open>
  Each table of the cache is an ordered map. It is modelled as an association
  list with one entry per key: \<open>m[k] = v\<close> is \<open>AList.update\<close>, \<open>m.find(k)\<close> is
  \<open>map_of\<close>, \<open>m.erase(k)\<close> is \<open>AList.delete\<close>, and a loop over the map is a
  recursion over the list. The container iterates in the order of the keys;
  the model iterates in the order of the list, where \<open>AList.update\<close> puts a new
  key last. The order of two entries of one table decides only which of two
  deletions of one teardown stage comes first, which of two failing entries
  ends a loop, and the order of the elements of a serialized array; no
  property below depends on it. The ids are C \<open>int\<close>s; no function does
  arithmetic on them, so they are modelled as \<open>int\<close>.
\<close>

record BcmWarmBootCache =
  hwSwitchEcmp2EgressIdsPopulated :: bool
  hwSwitchEcmp2EgressIds :: "(EgressId \<times> EgressIds) list"
  dumpedSwSwitchState :: "SwitchState option"
  vlan2VlanInfo :: "(VlanID \<times> VlanInfo) list"
  vlan2Station :: "(VlanID \<times> opennsl_l2_station_t) list"
  vlanAndMac2Intf :: "((VlanID \<times> MacAddress) \<times> opennsl_l3_intf_t) list"
  vrfIp2Host :: "((opennsl_vrf_t \<times> IPAddress) \<times> opennsl_l3_host_t) list"
  vrfPrefix2Route ::
    "((opennsl_vrf_t \<times> IPAddress \<times> IPAddress) \<times> opennsl_l3_route_t) list"
  vrfAndIP2Route :: "((opennsl_vrf_t \<times> IPAddress) \<times> opennsl_l3_route_t) list"
  egressId2EgressAndBool :: "(EgressId \<times> (opennsl_l3_egress_t \<times> bool)) list"
  egressIds2Ecmp :: "(EgressIds \<times> opennsl_l3_egress_ecmp_t) list"
  egressOrEcmpIdsFromHostTable :: "EgressId list"
  dropEgressId :: EgressId
  toCPUEgressId :: EgressId

text \<open>
  Modelled from the spec: \<open>BcmEgressBase::INVALID\<close>, declared in BcmEgress.h which
  is not among the sources. It is the id that no hardware egress object has and
  that marks the drop and to-CPU roles as not yet assigned.
\<close>

definition INVALID :: EgressId where
  "INVALID = - 1"

text \<open>
  Modelled from the spec: the in-class initialiser of
  \<open>hwSwitchEcmp2EgressIdsPopulated_\<close> is in the header, which is not among the
  sources. The flag is the "paths-available" flag that the loader sets as a
  side effect, so it starts unset.
\<close>

definition populatedInitially :: bool where
  "populatedInitially = False"

text \<open>
  The constructor sets the two role ids to \<open>INVALID\<close>; every container starts
  empty and no snapshot is loaded.
\<close>

definition BcmWarmBootCache_ctor :: BcmWarmBootCache where
  "BcmWarmBootCache_ctor =
     \<lparr> hwSwitchEcmp2EgressIdsPopulated = populatedInitially,
       hwSwitchEcmp2EgressIds = [],
       dumpedSwSwitchState = None,
       vlan2VlanInfo = [],
       vlan2Station = [],
       vlanAndMac2Intf = [],
       vrfIp2Host = [],
       vrfPrefix2Route = [],
       vrfAndIP2Route = [],
       egressId2EgressAndBool = [],
       egressIds2Ecmp = [],
       egressOrEcmpIdsFromHostTable = [],
       dropEgressId = INVALID,
       toCPUEgressId = INVALID \<rparr>"

section \<open>ECMP path lookup and the ECMP traversal callback\<close>

definition kEmptyEgressIds :: EgressIds where
  "kEmptyEgressIds = []"

definition getPathsForEcmp :: "BcmWarmBootCache \<Rightarrow> EgressId \<Rightarrow> error + EgressIds" where
  "getPathsForEcmp c ecmp =
     (if \<not> hwSwitchEcmp2EgressIdsPopulated c
      then Inl (CheckFailed ''hwSwitchEcmp2EgressIdsPopulated_'')
      else if hwSwitchEcmp2EgressIds c = [] then Inr kEmptyEgressIds
      else (case map_of (hwSwitchEcmp2EgressIds c) ecmp of
              None \<Rightarrow> Inl (FbossError ''Could not find ecmp ID : '')
            | Some ids \<Rightarrow> Inr ids))"

text \<open>
  Modelled from the spec: \<open>toEgressIds\<close> is defined in the header, which is not
  among the sources. It turns the hardware-reported member list (the first
  \<open>count\<close> elements of the array) into a set of egress ids.
\<close>

definition toEgressIds :: "EgressId list \<Rightarrow> int \<Rightarrow> EgressIds" where
  "toEgressIds intfArray intfCount =
     fold insort_insert (take (nat intfCount) intfArray) []"

text \<open>
  The member set the callback resolves: \<open>Inr None\<close> is the early \<open>return 0\<close>
  that skips the group, \<open>Inl\<close> an exception or abort that leaves the callback.
  The \<open>catch\<close> clause catches \<open>FbossError\<close> only.
\<close>

definition ecmpResolve ::
  "BcmWarmBootCache \<Rightarrow> opennsl_l3_egress_ecmp_t \<Rightarrow> int \<Rightarrow> EgressId list \<Rightarrow>
     error + EgressIds option" where
  "ecmpResolve c ecmp intfCount intfArray =
     (if hwSwitchEcmp2EgressIdsPopulated c then
        (case getPathsForEcmp c (ecmp_intf ecmp) of
           Inr ids \<Rightarrow> Inr (Some ids)
         | Inl (FbossError ex) \<Rightarrow>
             if intfCount = 0 then Inr None else Inl (FbossError ex)
         | Inl e \<Rightarrow> Inl e)
      else if intfCount = 0 then Inr None
      else Inr (Some (toEgressIds intfArray intfCount)))"

definition ecmpEgressTraversalCallback ::
  "BcmWarmBootCache \<Rightarrow> opennsl_l3_egress_ecmp_t \<Rightarrow> int \<Rightarrow> EgressId list \<Rightarrow>
     error + BcmWarmBootCache" where
  "ecmpEgressTraversalCallback c ecmp intfCount intfArray =
     (case ecmpResolve c ecmp intfCount intfArray of
        Inl e \<Rightarrow> Inl e
      | Inr None \<Rightarrow> Inr c
      | Inr (Some egressIds) \<Rightarrow>
          if \<not> length egressIds > 0
          then Inl (CheckFailed ''egressIds.size() > 0'')
          else if map_of (egressIds2Ecmp c) egressIds \<noteq> None
          then Inl (CheckFailed ''Got a duplicated call for ecmp id'')
          else Inr (c\<lparr>egressIds2Ecmp :=
                        AList.update egressIds ecmp (egressIds2Ecmp c)\<rparr>))"

section \<open>Discovery callbacks\<close>

text \<open>
  \<open>IPAddressV4::fetchMask(32)\<close> and \<open>IPAddressV6::fetchMask(128)\<close> are the masks
  with every bit set.
\<close>

definition getFullMaskIPv4Address :: IPAddress where
  "getFullMaskIPv4Address = V4 (- 1)"

definition getFullMaskIPv6Address :: IPAddress where
  "getFullMaskIPv6Address = V6 (- 1)"

definition hostTraversalCallback ::
  "sdk_flags \<Rightarrow> BcmWarmBootCache \<Rightarrow> opennsl_l3_host_t \<Rightarrow> BcmWarmBootCache" where
  "hostTraversalCallback fl cache host =
     (let ip = (if host_l3a_flags host AND OPENNSL_L3_IP6 fl \<noteq> 0
                then V6 (host_l3a_ip6_addr host) else V4 (host_l3a_ip_addr host))
      in cache\<lparr>vrfIp2Host := AList.update (host_l3a_vrf host, ip) host (vrfIp2Host cache),
               egressOrEcmpIdsFromHostTable :=
                 insort_insert (host_l3a_intf host) (egressOrEcmpIdsFromHostTable cache)\<rparr>)"

text \<open>
  \<open>canUseHostTableForHostRoutes\<close> is the platform's answer; the platform class is
  not among the sources, so the answer is a parameter. The address and the mask
  are built from the same family, so the comparison of \<open>mask\<close> with the full
  mask is a comparison of the bits.
\<close>

definition routeTraversalCallback ::
  "sdk_flags \<Rightarrow> bool \<Rightarrow> BcmWarmBootCache \<Rightarrow> opennsl_l3_route_t \<Rightarrow> BcmWarmBootCache" where
  "routeTraversalCallback fl canUseHostTableForHostRoutes cache route =
     (let isIPv6 = (route_l3a_flags route AND OPENNSL_L3_IP6 fl \<noteq> 0);
          ip = (if isIPv6 then V6 (route_l3a_ip6_net route) else V4 (route_l3a_subnet route));
          mask = (if isIPv6 then V6 (route_l3a_ip6_mask route)
                  else V4 (route_l3a_ip_mask route))
      in if canUseHostTableForHostRoutes \<and>
            ((isIPv6 \<and> mask = getFullMaskIPv6Address) \<or>
             (\<not> isIPv6 \<and> mask = getFullMaskIPv4Address))
         then cache\<lparr>vrfAndIP2Route :=
                AList.update (route_l3a_vrf route, ip) route (vrfAndIP2Route cache)\<rparr>
         else cache\<lparr>vrfPrefix2Route :=
                AList.update (route_l3a_vrf route, ip, mask) route (vrfPrefix2Route cache)\<rparr>)"

text \<open>
  The family, address and mask the callback reads from a route record, and the
  full address-width mask of a family: every bit of the 32 or 128 bits is set.
\<close>

definition routeIsIPv6 :: "sdk_flags \<Rightarrow> opennsl_l3_route_t \<Rightarrow> bool" where
  "routeIsIPv6 fl route \<longleftrightarrow> route_l3a_flags route AND OPENNSL_L3_IP6 fl \<noteq> 0"

definition routeAddress :: "sdk_flags \<Rightarrow> opennsl_l3_route_t \<Rightarrow> IPAddress" where
  "routeAddress fl route =
     (if routeIsIPv6 fl route then V6 (route_l3a_ip6_net route) else V4 (route_l3a_subnet route))"

definition routeMask :: "sdk_flags \<Rightarrow> opennsl_l3_route_t \<Rightarrow> IPAddress" where
  "routeMask fl route =
     (if routeIsIPv6 fl route then V6 (route_l3a_ip6_mask route) else V4 (route_l3a_ip_mask route))"

fun isFullMask :: "IPAddress \<Rightarrow> bool" where
  "isFullMask (V4 m) = (\<forall>n < 32. bit m n)"
| "isFullMask (V6 m) = (\<forall>n < 128. bit m n)"

definition egressTraversalCallback ::
  "sdk_flags \<Rightarrow> BcmWarmBootCache \<Rightarrow> EgressId \<Rightarrow> opennsl_l3_egress_t \<Rightarrow>
     error + BcmWarmBootCache" where
  "egressTraversalCallback fl cache egressId egress =
     (if map_of (egressId2EgressAndBool cache) egressId \<noteq> None
      then Inl (CheckFailed ''Double callback for egress id'')
      else if egressId \<in> set (egressOrEcmpIdsFromHostTable cache)
      then Inr (cache\<lparr>egressId2EgressAndBool :=
                   AList.update egressId (egress, False) (egressId2EgressAndBool cache)\<rparr>)
      else if egress_flags egress AND OPENNSL_L3_DST_DISCARD fl \<noteq> 0
      then (if dropEgressId cache \<noteq> INVALID
            then Inl (LogFatal ''duplicated drop egress found in HW'')
            else Inr (cache\<lparr>dropEgressId := egressId\<rparr>))
      else if egress_flags egress AND
                (OPENNSL_L3_L2TOCPU fl OR OPENNSL_L3_COPY_TO_CPU fl) \<noteq> 0
      then (if toCPUEgressId cache \<noteq> INVALID
            then Inl (LogFatal ''duplicated generic TO_CPU egress found in HW'')
            else Inr (cache\<lparr>toCPUEgressId := egressId\<rparr>))
      else Inl (LogFatal ''The egress is not referenced by any host entry''))"

text \<open>
  \<open>opennsl_l3_egress_traverse\<close> calls the callback once for each egress object of
  the hardware table, in table order; an abort inside a callback ends the run.
\<close>

fun egressTraverse ::
  "sdk_flags \<Rightarrow> BcmWarmBootCache \<Rightarrow> (EgressId \<times> opennsl_l3_egress_t) list \<Rightarrow>
     error + BcmWarmBootCache" where
  "egressTraverse fl cache [] = Inr cache"
| "egressTraverse fl cache ((egressId, egress) # rest) =
     (case egressTraversalCallback fl cache egressId egress of
        Inl e \<Rightarrow> Inl e
      | Inr cache' \<Rightarrow> egressTraverse fl cache' rest)"

text \<open>
  The role conditions on a hardware egress table \<open>tbl\<close>, given the ids \<open>refs\<close>
  that host-table entries reference. \<open>hasDropFlag\<close> and \<open>hasToCPUFlag\<close> are the two
  flag tests of the callback.
\<close>

definition hasDropFlag :: "sdk_flags \<Rightarrow> opennsl_l3_egress_t \<Rightarrow> bool" where
  "hasDropFlag fl egress \<longleftrightarrow> egress_flags egress AND OPENNSL_L3_DST_DISCARD fl \<noteq> 0"

definition hasToCPUFlag :: "sdk_flags \<Rightarrow> opennsl_l3_egress_t \<Rightarrow> bool" where
  "hasToCPUFlag fl egress \<longleftrightarrow>
     egress_flags egress AND (OPENNSL_L3_L2TOCPU fl OR OPENNSL_L3_COPY_TO_CPU fl) \<noteq> 0"

definition unreferenced ::
  "EgressId list \<Rightarrow> (EgressId \<times> opennsl_l3_egress_t) list \<Rightarrow> opennsl_l3_egress_t list" where
  "unreferenced refs tbl = map snd (filter (\<lambda>(i, e). i \<notin> set refs) tbl)"

text \<open>At most one unreferenced drop egress and at most one unreferenced to-CPU egress.\<close>

definition atMostOnePerFlag ::
  "sdk_flags \<Rightarrow> EgressId list \<Rightarrow> (EgressId \<times> opennsl_l3_egress_t) list \<Rightarrow> bool" where
  "atMostOnePerFlag fl refs tbl \<longleftrightarrow>
     length (filter (hasDropFlag fl) (unreferenced refs tbl)) \<le> 1 \<and>
     length (filter (hasToCPUFlag fl) (unreferenced refs tbl)) \<le> 1"

text \<open>
  The condition the callback enforces: the to-CPU role goes to an egress that
  has a to-CPU flag and not the drop flag, and every unreferenced egress has
  one of the two roles.
\<close>

definition rolesExplained ::
  "sdk_flags \<Rightarrow> EgressId list \<Rightarrow> (EgressId \<times> opennsl_l3_egress_t) list \<Rightarrow> bool" where
  "rolesExplained fl refs tbl \<longleftrightarrow>
     length (filter (hasDropFlag fl) (unreferenced refs tbl)) \<le> 1 \<and>
     length (filter (\<lambda>e. \<not> hasDropFlag fl e \<and> hasToCPUFlag fl e) (unreferenced refs tbl)) \<le> 1 \<and>
     list_all (\<lambda>e. hasDropFlag fl e \<or> hasToCPUFlag fl e) (unreferenced refs tbl)"

text \<open>
  The same condition in the middle of a traversal, when the cache may already
  hold an id for a role.
\<close>

definition rolesFrom ::
  "sdk_flags \<Rightarrow> BcmWarmBootCache \<Rightarrow> (EgressId \<times> opennsl_l3_egress_t) list \<Rightarrow> bool" where
  "rolesFrom fl c tbl \<longleftrightarrow>
     length (filter (hasDropFlag fl) (unreferenced (egressOrEcmpIdsFromHostTable c) tbl))
        + (if dropEgressId c \<noteq> INVALID then 1 else 0) \<le> 1 \<and>
     length (filter (\<lambda>e. \<not> hasDropFlag fl e \<and> hasToCPUFlag fl e)
               (unreferenced (egressOrEcmpIdsFromHostTable c) tbl))
        + (if toCPUEgressId c \<noteq> INVALID then 1 else 0) \<le> 1 \<and>
     list_all (\<lambda>e. hasDropFlag fl e \<or> hasToCPUFlag fl e)
        (unreferenced (egressOrEcmpIdsFromHostTable c) tbl)"

definition roleFatal :: "error \<Rightarrow> bool" where
  "roleFatal e \<longleftrightarrow>
     e = LogFatal ''duplicated drop egress found in HW'' \<or>
     e = LogFatal ''duplicated generic TO_CPU egress found in HW'' \<or>
     e = LogFatal ''The egress is not referenced by any host entry''"

section \<open>Teardown\<close>

text \<open>
  The objects of the cache, by table and key, and the SDK deletion calls.
  An event of the teardown is the object a deletion is issued for together
  with the call and its argument.
\<close>

datatype hw_obj =
    PrefixRoute "opennsl_vrf_t \<times> IPAddress \<times> IPAddress"
  | HostRoute "opennsl_vrf_t \<times> IPAddress"
  | HostEntry "opennsl_vrf_t \<times> IPAddress"
  | EcmpGroup EgressIds
  | EgressObj EgressId
  | L3Intf "VlanID \<times> MacAddress"
  | L2Station VlanID
  | VlanObj VlanID

datatype sdk_call =
    opennsl_l3_route_delete opennsl_l3_route_t
  | opennsl_l3_host_delete opennsl_l3_host_t
  | opennsl_l3_egress_ecmp_destroy opennsl_l3_egress_ecmp_t
  | opennsl_l3_egress_destroy EgressId
  | opennsl_l3_intf_delete opennsl_l3_intf_t
  | opennsl_l2_station_delete VlanID
  | opennsl_vlan_destroy VlanID

type_synonym event = "hw_obj \<times> sdk_call"

text \<open>
  The SDK is outside the repository. Its return code for a deletion may depend
  on the call and on every deletion issued before it; the default VLAN query
  returns a code and a VLAN.
\<close>

record sdk =
  sdk_delete :: "event list \<Rightarrow> sdk_call \<Rightarrow> int"
  opennsl_vlan_default_get :: "int \<times> VlanID"

text \<open>
  Modelled from the spec: \<open>bcmLogFatal\<close> is defined in BcmError.h, which is not
  among the sources. A call that the hardware driver reports as failed (a
  negative return code) is a fatal, process-terminating condition.
\<close>

definition bcmLogFatal :: "int \<Rightarrow> string \<Rightarrow> error + unit" where
  "bcmLogFatal rv msg = (if rv < 0 then Inl (LogFatal msg) else Inr ())"

text \<open>
  One deletion loop of \<open>clear()\<close>: for each entry, issue the call, then
  \<open>bcmLogFatal\<close> on its return code. The trace of issued deletions is returned
  also when the run aborts.
\<close>

fun sweep :: "sdk \<Rightarrow> string \<Rightarrow> event list \<Rightarrow> event list \<Rightarrow> event list \<times> (error + unit)" where
  "sweep hw msg [] trace = (trace, Inr ())"
| "sweep hw msg ((obj, call) # rest) trace =
     (let rv = sdk_delete hw trace call
      in case bcmLogFatal rv msg of
           Inl e \<Rightarrow> (trace @ [(obj, call)], Inl e)
         | Inr u \<Rightarrow> sweep hw msg rest (trace @ [(obj, call)]))"

definition andThen ::
  "event list \<times> (error + 'a) \<Rightarrow> (event list \<Rightarrow> 'a \<Rightarrow> event list \<times> (error + 'b)) \<Rightarrow>
     event list \<times> (error + 'b)" where
  "andThen r f = (case r of (trace, Inl e) \<Rightarrow> (trace, Inl e) | (trace, Inr a) \<Rightarrow> f trace a)"

definition clear ::
  "sdk \<Rightarrow> BcmWarmBootCache \<Rightarrow> event list \<times> (error + BcmWarmBootCache)" where
  "clear hw c0 =
     (let c1 = c0\<lparr>dumpedSwSwitchState := None, hwSwitchEcmp2EgressIds := []\<rparr> in
      andThen (sweep hw ''failed to delete unreferenced route''
                 (map (\<lambda>(k, route). (PrefixRoute k, opennsl_l3_route_delete route))
                    (vrfPrefix2Route c1)) [])
      (\<lambda>trace u. let c2 = c1\<lparr>vrfPrefix2Route := []\<rparr> in
      andThen (sweep hw ''failed to delete fully qualified unreferenced route''
                 (map (\<lambda>(k, route). (HostRoute k, opennsl_l3_route_delete route))
                    (vrfAndIP2Route c2)) trace)
      (\<lambda>trace u. let c3 = c2\<lparr>vrfAndIP2Route := []\<rparr> in
      andThen (sweep hw ''failed to delete host entry''
                 (map (\<lambda>(k, host). (HostEntry k, opennsl_l3_host_delete host))
                    (vrfIp2Host c3)) trace)
      (\<lambda>trace u. let c4 = c3\<lparr>vrfIp2Host := []\<rparr> in
      andThen (sweep hw ''failed to destroy ecmp egress object''
                 (map (\<lambda>(ids, ecmp). (EcmpGroup ids, opennsl_l3_egress_ecmp_destroy ecmp))
                    (egressIds2Ecmp c4)) trace)
      (\<lambda>trace u. let c5 = c4\<lparr>egressIds2Ecmp := []\<rparr> in
      andThen (sweep hw ''failed to destroy egress object''
                 (map (\<lambda>(egressId, egressAndBool).
                         (EgressObj egressId, opennsl_l3_egress_destroy egressId))
                    (filter (\<lambda>(egressId, egressAndBool). \<not> snd egressAndBool)
                       (egressId2EgressAndBool c5))) trace)
      (\<lambda>trace u. let c6 = c5\<lparr>egressId2EgressAndBool := []\<rparr> in
      andThen (sweep hw ''failed to delete l3 interface''
                 (map (\<lambda>(k, intf). (L3Intf k, opennsl_l3_intf_delete intf))
                    (vlanAndMac2Intf c6)) trace)
      (\<lambda>trace u. let c7 = c6\<lparr>vlanAndMac2Intf := []\<rparr> in
      andThen (sweep hw ''failed to delete station''
                 (map (\<lambda>(vlan, station). (L2Station vlan, opennsl_l2_station_delete vlan))
                    (vlan2Station c7)) trace)
      (\<lambda>trace u. let c8 = c7\<lparr>vlan2Station := []\<rparr>;
                     (rv, defaultVlan) = opennsl_vlan_default_get hw in
      andThen (trace, bcmLogFatal rv ''failed to get default VLAN'')
      (\<lambda>trace u.
      andThen (sweep hw ''failed to destroy vlan''
                 (map (\<lambda>(vlan, info). (VlanObj vlan, opennsl_vlan_destroy vlan))
                    (filter (\<lambda>(vlan, info). defaultVlan \<noteq> vlan) (vlan2VlanInfo c8))) trace)
      (\<lambda>trace u. (trace, Inr (c8\<lparr>vlan2VlanInfo :=
                      filter (\<lambda>(vlan, info). defaultVlan = vlan) (vlan2VlanInfo c8)\<rparr>))))))))))))"

text \<open>The stage of the teardown that deletes objects of a table.\<close>

fun stage :: "hw_obj \<Rightarrow> nat" where
  "stage (PrefixRoute k) = 1"
| "stage (HostRoute k) = 2"
| "stage (HostEntry k) = 3"
| "stage (EcmpGroup ids) = 4"
| "stage (EgressObj i) = 5"
| "stage (L3Intf k) = 6"
| "stage (L2Station v) = 7"
| "stage (VlanObj v) = 8"

text \<open>
  The deletions a teardown owes, stage after stage, when the default VLAN is
  \<open>defaultVlan\<close>; and what it means for a run that starts with the trace
  \<open>trace\<close> to work through a list of owed deletions: it issues a prefix of the
  list, and all of it when it returns normally.
\<close>

definition teardownPlan :: "VlanID \<Rightarrow> BcmWarmBootCache \<Rightarrow> event list" where
  "teardownPlan defaultVlan c =
     map (\<lambda>(k, route). (PrefixRoute k, opennsl_l3_route_delete route)) (vrfPrefix2Route c) @
     map (\<lambda>(k, route). (HostRoute k, opennsl_l3_route_delete route)) (vrfAndIP2Route c) @
     map (\<lambda>(k, host). (HostEntry k, opennsl_l3_host_delete host)) (vrfIp2Host c) @
     map (\<lambda>(ids, ecmp). (EcmpGroup ids, opennsl_l3_egress_ecmp_destroy ecmp)) (egressIds2Ecmp c) @
     map (\<lambda>(egressId, egressAndBool). (EgressObj egressId, opennsl_l3_egress_destroy egressId))
       (filter (\<lambda>(egressId, egressAndBool). \<not> snd egressAndBool) (egressId2EgressAndBool c)) @
     map (\<lambda>(k, intf). (L3Intf k, opennsl_l3_intf_delete intf)) (vlanAndMac2Intf c) @
     map (\<lambda>(vlan, station). (L2Station vlan, opennsl_l2_station_delete vlan)) (vlan2Station c) @
     map (\<lambda>(vlan, info). (VlanObj vlan, opennsl_vlan_destroy vlan))
       (filter (\<lambda>(vlan, info). defaultVlan \<noteq> vlan) (vlan2VlanInfo c))"

definition runsOver ::
  "event list \<Rightarrow> event list \<Rightarrow> event list \<times> (error + 'a) \<Rightarrow> bool" where
  "runsOver trace plan r \<longleftrightarrow>
     (\<exists>ys. prefix ys plan \<and> fst r = trace @ ys \<and> (\<forall>a. snd r = Inr a \<longrightarrow> ys = plan))"

section \<open>Claiming objects during reconciliation\<close>

text \<open>
  Modelled from the spec: the claim operations are defined in the header, which
  is not among the sources. Claiming an object removes its entry from the
  owning map; claiming an egress object sets its claimed flag and leaves the
  entry in the map.
\<close>

fun claim :: "hw_obj \<Rightarrow> BcmWarmBootCache \<Rightarrow> BcmWarmBootCache" where
  "claim (PrefixRoute k) c = c\<lparr>vrfPrefix2Route := AList.delete k (vrfPrefix2Route c)\<rparr>"
| "claim (HostRoute k) c = c\<lparr>vrfAndIP2Route := AList.delete k (vrfAndIP2Route c)\<rparr>"
| "claim (HostEntry k) c = c\<lparr>vrfIp2Host := AList.delete k (vrfIp2Host c)\<rparr>"
| "claim (EcmpGroup ids) c = c\<lparr>egressIds2Ecmp := AList.delete ids (egressIds2Ecmp c)\<rparr>"
| "claim (EgressObj i) c =
     (case map_of (egressId2EgressAndBool c) i of
        None \<Rightarrow> c
      | Some (egress, b) \<Rightarrow>
          c\<lparr>egressId2EgressAndBool :=
               AList.update i (egress, True) (egressId2EgressAndBool c)\<rparr>)"
| "claim (L3Intf k) c = c\<lparr>vlanAndMac2Intf := AList.delete k (vlanAndMac2Intf c)\<rparr>"
| "claim (L2Station v) c = c\<lparr>vlan2Station := AList.delete v (vlan2Station c)\<rparr>"
| "claim (VlanObj v) c = c\<lparr>vlan2VlanInfo := AList.delete v (vlan2VlanInfo c)\<rparr>"

text \<open>A reconciliation pass that claims the objects of \<open>S\<close>, one after the other.\<close>

definition reconcile :: "hw_obj list \<Rightarrow> BcmWarmBootCache \<Rightarrow> BcmWarmBootCache" where
  "reconcile S c = fold claim S c"

text \<open>The objects a cache holds after discovery.\<close>

definition discovered :: "BcmWarmBootCache \<Rightarrow> hw_obj set" where
  "discovered c =
     PrefixRoute ` fst ` set (vrfPrefix2Route c) \<union>
     HostRoute ` fst ` set (vrfAndIP2Route c) \<union>
     HostEntry ` fst ` set (vrfIp2Host c) \<union>
     EcmpGroup ` fst ` set (egressIds2Ecmp c) \<union>
     EgressObj ` fst ` set (egressId2EgressAndBool c) \<union>
     L3Intf ` fst ` set (vlanAndMac2Intf c) \<union>
     L2Station ` fst ` set (vlan2Station c) \<union>
     VlanObj ` fst ` set (vlan2VlanInfo c)"

text \<open>
  The egress objects whose claimed flag is not set, and the objects of a cache
  that no claim has taken yet.
\<close>

definition unclaimedEgress :: "BcmWarmBootCache \<Rightarrow> EgressId set" where
  "unclaimedEgress c = fst ` {x \<in> set (egressId2EgressAndBool c). \<not> snd (snd x)}"

definition pending :: "BcmWarmBootCache \<Rightarrow> hw_obj set" where
  "pending c =
     PrefixRoute ` fst ` set (vrfPrefix2Route c) \<union>
     HostRoute ` fst ` set (vrfAndIP2Route c) \<union>
     HostEntry ` fst ` set (vrfIp2Host c) \<union>
     EcmpGroup ` fst ` set (egressIds2Ecmp c) \<union>
     EgressObj ` unclaimedEgress c \<union>
     L3Intf ` fst ` set (vlanAndMac2Intf c) \<union>
     L2Station ` fst ` set (vlan2Station c) \<union>
     VlanObj ` fst ` set (vlan2VlanInfo c)"

section \<open>State reconstruction\<close>

text \<open>
  Modelled from the spec: the node maps of the state library (interface map,
  VLAN map, neighbor tables) are not among the sources. The spec describes
  lookups by id that find a node or nothing: the \<open>If\<close> variants return a null
  pointer for a missing id, \<open>getVlan\<close> throws. What the library does when a node
  is added under an id that is present is not described; the model rejects it
  with an \<open>FbossError\<close>, and the properties below are stated for inputs where
  that does not happen, or for the runs that return.
\<close>

definition addNode :: "('k \<times> 'v) list \<Rightarrow> 'k \<Rightarrow> 'v \<Rightarrow> error + ('k \<times> 'v) list" where
  "addNode nodes k v =
     (if map_of nodes k \<noteq> None then Inl (FbossError ''duplicate node'')
      else Inr (nodes @ [(k, v)]))"

definition getInterfaceIf :: "InterfaceMap \<Rightarrow> InterfaceID \<Rightarrow> Interface option" where
  "getInterfaceIf m i = map_of m i"

definition getVlanIf :: "VlanMap \<Rightarrow> VlanID \<Rightarrow> Vlan option" where
  "getVlanIf m v = map_of m v"

definition getVlan :: "VlanMap \<Rightarrow> VlanID \<Rightarrow> error + Vlan" where
  "getVlan m v = (case map_of m v of None \<Rightarrow> Inl (FbossError ''no such vlan'') | Some vlan \<Rightarrow> Inr vlan)"

definition getEntryIf :: "('a \<times> NeighborEntry) list \<Rightarrow> 'a \<Rightarrow> NeighborEntry option" where
  "getEntryIf table ip = map_of table ip"

subsection \<open>Interfaces\<close>

text \<open>
  The loop of \<open>reconstructInterfaceMap\<close>. The result of \<open>getInterfaceIf\<close> is
  dereferenced without a test; a null result is the outcome \<open>NullDereference\<close>.
\<close>

fun reconstructInterfaces ::
  "InterfaceMap \<Rightarrow> ((VlanID \<times> MacAddress) \<times> opennsl_l3_intf_t) list \<Rightarrow> InterfaceMap \<Rightarrow>
     error + InterfaceMap" where
  "reconstructInterfaces dumpedInterfaceMap [] intfMap = Inr intfMap"
| "reconstructInterfaces dumpedInterfaceMap ((vlanMac, bcmIntf) # rest) intfMap =
     (case getInterfaceIf dumpedInterfaceMap (l3a_vid bcmIntf) of
        None \<Rightarrow> Inl NullDereference
      | Some dumpedInterface \<Rightarrow>
          (let newInterface =
                 \<lparr> if_id = l3a_vid bcmIntf,
                   if_routerID = l3a_vrf bcmIntf,
                   if_vlanID = l3a_vid bcmIntf,
                   if_name = if_name dumpedInterface,
                   if_mac = snd vlanMac,
                   if_mtu = l3a_mtu bcmIntf,
                   if_addresses = if_addresses dumpedInterface \<rparr>
           in case addNode intfMap (if_id newInterface) newInterface of
                Inl e \<Rightarrow> Inl e
              | Inr intfMap' \<Rightarrow> reconstructInterfaces dumpedInterfaceMap rest intfMap'))"

definition reconstructInterfaceMap :: "BcmWarmBootCache \<Rightarrow> error + InterfaceMap" where
  "reconstructInterfaceMap c =
     (case dumpedSwSwitchState c of
        None \<Rightarrow> Inl NullDereference
      | Some st \<Rightarrow>
          (case getInterfaces st of
             None \<Rightarrow> (if vlanAndMac2Intf c = [] then Inr [] else Inl NullDereference)
           | Some dumpedInterfaceMap \<Rightarrow>
               reconstructInterfaces dumpedInterfaceMap (vlanAndMac2Intf c) []))"

subsection \<open>VLANs and their neighbor tables\<close>

definition kVlanForCPUEgressEntries :: VlanID where
  "kVlanForCPUEgressEntries = 0"

record AddrTables =
  arpTable :: ArpTable
  ndpTable :: NdpTable

definition newVlan :: "VlanID \<Rightarrow> string \<Rightarrow> Vlan" where
  "newVlan i name =
     \<lparr> vlan_id = i, vlan_name = name, vlan_ports = [], vlan_interfaceID = 0,
       vlan_arpTable = [], vlan_ndpTable = [] \<rparr>"

definition addPort :: "Vlan \<Rightarrow> PortID \<Rightarrow> bool \<Rightarrow> Vlan" where
  "addPort vlan p tagged =
     (if map_of (vlan_ports vlan) p \<noteq> None then vlan
      else vlan\<lparr>vlan_ports := vlan_ports vlan @ [(p, tagged)]\<rparr>)"

text \<open>The body of the first loop: the VLAN built from one entry of \<open>vlan2VlanInfo_\<close>.\<close>

definition vlanFromInfo :: "VlanID \<Rightarrow> VlanInfo \<Rightarrow> Vlan" where
  "vlanFromInfo vlanId info =
     (let vlan = fold (\<lambda>idx v. addPort v idx False) (vi_untagged info) (newVlan vlanId '''');
          untagged = set (vi_untagged info);
          vlan' = fold (\<lambda>idx v. if idx \<in> untagged then v else addPort v idx True)
                    (vi_allPorts info) vlan
      in vlan'\<lparr>vlan_interfaceID := vi_intfID info\<rparr>)"

fun addVlans :: "(VlanID \<times> VlanInfo) list \<Rightarrow> VlanMap \<Rightarrow> error + VlanMap" where
  "addVlans [] vlans = Inr vlans"
| "addVlans ((vlanId, info) # rest) vlans =
     (case addNode vlans vlanId (vlanFromInfo vlanId info) of
        Inl e \<Rightarrow> Inl e
      | Inr vlans' \<Rightarrow> addVlans rest vlans')"

text \<open>
  Modelled from the spec: \<open>findEgress(vrf, ip)\<close> is defined in the header, which is
  not among the sources. It resolves through the host-entry map to the
  underlying egress object and its claimed flag, without removing anything.
\<close>

definition findEgress ::
  "BcmWarmBootCache \<Rightarrow> opennsl_vrf_t \<Rightarrow> IPAddress \<Rightarrow> (opennsl_l3_egress_t \<times> bool) option" where
  "findEgress c vrf ip =
     (case map_of (vrfIp2Host c) (vrf, ip) of
        None \<Rightarrow> None
      | Some host \<Rightarrow> map_of (egressId2EgressAndBool c) (host_l3a_intf host))"

text \<open>
  Modelled from the spec: \<open>BcmEgress::programmedToDrop\<close> is defined in BcmEgress.h,
  which is not among the sources. An egress object is programmed to drop when it
  carries the drop flag.
\<close>

definition programmedToDrop :: "sdk_flags \<Rightarrow> opennsl_l3_egress_t \<Rightarrow> bool" where
  "programmedToDrop fl egress \<longleftrightarrow> egress_flags egress AND OPENNSL_L3_DST_DISCARD fl \<noteq> 0"

text \<open>
  The first half of the body of the second loop, up to the last \<open>continue\<close>:
  \<open>Inr None\<close> skips the host entry, \<open>Inr (Some (vlanId, bcmEgress))\<close> goes on to
  add it to the tables of \<open>vlanId\<close>.
\<close>

definition hostToNeighbor ::
  "BcmWarmBootCache \<Rightarrow> VlanMap option \<Rightarrow> opennsl_vrf_t \<times> IPAddress \<Rightarrow>
     error + (VlanID \<times> opennsl_l3_egress_t) option" where
  "hostToNeighbor c dumpedVlans vrfIp =
     (case findEgress c (fst vrfIp) (snd vrfIp) of
        None \<Rightarrow> Inr None
      | Some (bcmEgress, claimed) \<Rightarrow>
          if egress_vlan bcmEgress = kVlanForCPUEgressEntries then Inr None
          else
            (let vlanId = egress_vlan bcmEgress in
             case dumpedVlans of
               None \<Rightarrow> Inr (Some (vlanId, bcmEgress))
             | Some vlans \<Rightarrow>
                 (case getVlan vlans vlanId of
                    Inl e \<Rightarrow> Inl e
                  | Inr dumpedVlan \<Rightarrow>
                      (case snd vrfIp of
                         V4 a \<Rightarrow>
                           if getEntryIf (vlan_arpTable dumpedVlan) a = None then Inr None
                           else Inr (Some (vlanId, bcmEgress))
                       | V6 a \<Rightarrow>
                           if getEntryIf (vlan_ndpTable dumpedVlan) a = None then Inr None
                           else Inr (Some (vlanId, bcmEgress))))))"

definition neighborFor :: "sdk_flags \<Rightarrow> opennsl_l3_egress_t \<Rightarrow> NeighborEntry" where
  "neighborFor fl bcmEgress =
     (if programmedToDrop fl bcmEgress then PendingEntry (egress_vlan bcmEgress)
      else ResolvedEntry (egress_mac_addr bcmEgress) (egress_port bcmEgress)
             (egress_vlan bcmEgress) UNVERIFIED)"

text \<open>
  The second half of the body: find or create the tables of the VLAN, then add
  the entry to the ARP table (IPv4) or the NDP table (IPv6).
\<close>

definition addNeighbor ::
  "sdk_flags \<Rightarrow> (VlanID \<times> AddrTables) list \<Rightarrow> VlanID \<Rightarrow> IPAddress \<Rightarrow> opennsl_l3_egress_t \<Rightarrow>
     error + (VlanID \<times> AddrTables) list" where
  "addNeighbor fl vlan2AddrTables vlanId ip bcmEgress =
     (let tables = (case map_of vlan2AddrTables vlanId of
                      None \<Rightarrow> \<lparr>arpTable = [], ndpTable = []\<rparr>
                    | Some t \<Rightarrow> t)
      in case ip of
           V4 a \<Rightarrow>
             (case addNode (arpTable tables) a (neighborFor fl bcmEgress) of
                Inl e \<Rightarrow> Inl e
              | Inr arp \<Rightarrow>
                  Inr (AList.update vlanId (tables\<lparr>arpTable := arp\<rparr>) vlan2AddrTables))
         | V6 a \<Rightarrow>
             (case addNode (ndpTable tables) a (neighborFor fl bcmEgress) of
                Inl e \<Rightarrow> Inl e
              | Inr ndp \<Rightarrow>
                  Inr (AList.update vlanId (tables\<lparr>ndpTable := ndp\<rparr>) vlan2AddrTables)))"

fun addHosts ::
  "sdk_flags \<Rightarrow> BcmWarmBootCache \<Rightarrow> VlanMap option \<Rightarrow>
     ((opennsl_vrf_t \<times> IPAddress) \<times> opennsl_l3_host_t) list \<Rightarrow>
     (VlanID \<times> AddrTables) list \<Rightarrow> error + (VlanID \<times> AddrTables) list" where
  "addHosts fl c dumpedVlans [] vlan2AddrTables = Inr vlan2AddrTables"
| "addHosts fl c dumpedVlans ((vrfIp, host) # rest) vlan2AddrTables =
     (case hostToNeighbor c dumpedVlans vrfIp of
        Inl e \<Rightarrow> Inl e
      | Inr None \<Rightarrow> addHosts fl c dumpedVlans rest vlan2AddrTables
      | Inr (Some (vlanId, bcmEgress)) \<Rightarrow>
          (case addNeighbor fl vlan2AddrTables vlanId (snd vrfIp) bcmEgress of
             Inl e \<Rightarrow> Inl e
           | Inr vlan2AddrTables' \<Rightarrow> addHosts fl c dumpedVlans rest vlan2AddrTables'))"

fun setAddrTables :: "(VlanID \<times> AddrTables) list \<Rightarrow> VlanMap \<Rightarrow> error + VlanMap" where
  "setAddrTables [] vlans = Inr vlans"
| "setAddrTables ((vlanId, tables) # rest) vlans =
     (case getVlanIf vlans vlanId of
        None \<Rightarrow> Inl (LogFatal ''Vlan not found'')
      | Some vlan \<Rightarrow>
          setAddrTables rest
            (AList.update vlanId
               (vlan\<lparr>vlan_arpTable := arpTable tables, vlan_ndpTable := ndpTable tables\<rparr>)
               vlans))"

definition reconstructVlanMap :: "sdk_flags \<Rightarrow> BcmWarmBootCache \<Rightarrow> error + VlanMap" where
  "reconstructVlanMap fl c =
     (case dumpedSwSwitchState c of
        None \<Rightarrow> Inl NullDereference
      | Some st \<Rightarrow>
          (let dumpedVlans = getVlans st in
           case addVlans (vlan2VlanInfo c) [] of
             Inl e \<Rightarrow> Inl e
           | Inr vlans \<Rightarrow>
               (case addHosts fl c dumpedVlans (vrfIp2Host c) [] of
                  Inl e \<Rightarrow> Inl e
                | Inr vlan2AddrTables \<Rightarrow> setAddrTables vlan2AddrTables vlans)))"

text \<open>
  The addresses in the ARP and NDP tables of VLAN \<open>v\<close> in a VLAN map; no
  addresses when the map has no such VLAN.
\<close>

definition arpAddresses :: "VlanMap \<Rightarrow> VlanID \<Rightarrow> 32 word set" where
  "arpAddresses vlans v =
     (case map_of vlans v of None \<Rightarrow> {} | Some vlan \<Rightarrow> fst ` set (vlan_arpTable vlan))"

definition ndpAddresses :: "VlanMap \<Rightarrow> VlanID \<Rightarrow> 128 word set" where
  "ndpAddresses vlans v =
     (case map_of vlans v of None \<Rightarrow> {} | Some vlan \<Rightarrow> fst ` set (vlan_ndpTable vlan))"

text \<open>
  The neighbor tables under construction, and the VLANs of a VLAN map, hold
  only addresses that the dumped VLAN of the same id lists.
\<close>

definition tablesFiltered :: "VlanMap \<Rightarrow> (VlanID \<times> AddrTables) list \<Rightarrow> bool" where
  "tablesFiltered dumpedVlans vlan2AddrTables \<longleftrightarrow>
     (\<forall>p \<in> set vlan2AddrTables.
        fst ` set (arpTable (snd p)) \<subseteq> arpAddresses dumpedVlans (fst p) \<and>
        fst ` set (ndpTable (snd p)) \<subseteq> ndpAddresses dumpedVlans (fst p))"

definition vlansFiltered :: "VlanMap \<Rightarrow> VlanMap \<Rightarrow> bool" where
  "vlansFiltered dumpedVlans vlans \<longleftrightarrow>
     (\<forall>p \<in> set vlans.
        fst ` set (vlan_arpTable (snd p)) \<subseteq> arpAddresses dumpedVlans (fst p) \<and>
        fst ` set (vlan_ndpTable (snd p)) \<subseteq> ndpAddresses dumpedVlans (fst p))"

section \<open>Serialization and the persisted-state loader\<close>

text \<open>
  \<open>folly::dynamic\<close>, as far as the code uses it: null, integers, strings, arrays
  and objects; boolean and floating-point values are outside the model. The
  integers of a \<open>dynamic\<close> are of type \<open>int64_t\<close>. An object is a map from keys to
  values; \<open>obj[k] = v\<close> is \<open>AList.update\<close>. Reading a value at the wrong type
  throws \<open>TypeError\<close>; so does a missing key of a \<open>const\<close> object (the library
  throws \<open>std::out_of_range\<close> there, which the model does not tell apart). The
  non-\<open>const\<close> \<open>operator[]\<close> of an object gives null for a missing key.

  \<open>asInt\<close> returns the \<open>int64_t\<close> of an integer; the model returns its value. A
  string it converts with \<open>folly::to<int64_t>\<close>, a function of the library that
  is outside the repository: the conversion is the parameter \<open>toInt64\<close>, which
  gives the number a string spells or the error the library throws.
\<close>

datatype dynamic =
    DNull
  | DInt "64 word"
  | DString string
  | DArray "dynamic list"
  | DObject "(string \<times> dynamic) list"

fun asInt :: "(string \<Rightarrow> error + 64 word) \<Rightarrow> dynamic \<Rightarrow> error + int" where
  "asInt toInt64 (DInt n) = Inr (sint n)"
| "asInt toInt64 (DString s) = (case toInt64 s of Inl e \<Rightarrow> Inl e | Inr n \<Rightarrow> Inr (sint n))"
| "asInt toInt64 d = Inl (TypeError ''asInt'')"

text \<open>
  An \<open>EgressId\<close> is the \<open>opennsl_if_t\<close> of the SDK, a 32-bit \<open>int\<close>. A \<open>dynamic\<close>
  built from an \<open>EgressId\<close> holds it widened to 64 bits. In the other direction,
  using the \<open>int64_t\<close> that \<open>asInt\<close> returns as the key of a map of \<open>EgressId\<close>s,
  or inserting it into a set of \<open>EgressId\<close>s, narrows it: the low 32 bits, read
  as a signed number. \<open>isEgressId\<close> is the range of the 32-bit type.
\<close>

definition fromEgressId :: "EgressId \<Rightarrow> dynamic" where
  "fromEgressId e = DInt (word_of_int e)"

definition toEgressId :: "int \<Rightarrow> EgressId" where
  "toEgressId n = sint (word_of_int n :: 32 word)"

definition isEgressId :: "int \<Rightarrow> bool" where
  "isEgressId n \<longleftrightarrow> - (2 ^ 31) \<le> n \<and> n < 2 ^ 31"

fun dynElements :: "dynamic \<Rightarrow> error + dynamic list" where
  "dynElements (DArray xs) = Inr xs"
| "dynElements d = Inl (TypeError ''not an array'')"

fun dynItems :: "dynamic \<Rightarrow> error + (string \<times> dynamic) list" where
  "dynItems (DObject kvs) = Inr kvs"
| "dynItems d = Inl (TypeError ''not an object'')"

fun dynAt :: "dynamic \<Rightarrow> string \<Rightarrow> error + dynamic" where
  "dynAt (DObject kvs) k =
     (case map_of kvs k of None \<Rightarrow> Inl (TypeError ''missing key'') | Some v \<Rightarrow> Inr v)"
| "dynAt d k = Inl (TypeError ''not an object'')"

fun dynIndex :: "dynamic \<Rightarrow> string \<Rightarrow> error + dynamic" where
  "dynIndex (DObject kvs) k = (case map_of kvs k of None \<Rightarrow> Inr DNull | Some v \<Rightarrow> Inr v)"
| "dynIndex d k = Inl (TypeError ''not an object'')"

definition bindE :: "error + 'a \<Rightarrow> ('a \<Rightarrow> error + 'b) \<Rightarrow> error + 'b" where
  "bindE r f = (case r of Inl e \<Rightarrow> Inl e | Inr a \<Rightarrow> f a)"

text \<open>
  The key names of Constants.h are not among the sources; the functions take
  them as a parameter. \<open>kEcmpObjects\<close> is defined in this file.
\<close>

record json_keys =
  kSwSwitch :: string
  kHwSwitch :: string
  kHostTable :: string
  kEcmpHosts :: string
  kEcmpEgress :: string
  kEcmpEgressId :: string
  kPaths :: string
  kWarmBootCache :: string

definition kEcmpObjects :: string where
  "kEcmpObjects = ''ecmpObjects''"

definition ecmpToFollyDynamic :: "json_keys \<Rightarrow> EgressId \<times> EgressIds \<Rightarrow> dynamic" where
  "ecmpToFollyDynamic ks ecmpAndEgressIds =
     DObject (AList.update (kPaths ks) (DArray (map fromEgressId (snd ecmpAndEgressIds)))
               (AList.update (kEcmpEgressId ks) (fromEgressId (fst ecmpAndEgressIds)) []))"

definition toFollyDynamic :: "json_keys \<Rightarrow> BcmWarmBootCache \<Rightarrow> dynamic" where
  "toFollyDynamic ks c =
     DObject (AList.update kEcmpObjects
                (DArray (map (ecmpToFollyDynamic ks) (hwSwitchEcmp2EgressIds c))) [])"

text \<open>\<open>m[ecmpEgressId].insert(path)\<close>: the set is created empty when the id is new.\<close>

definition insertPath ::
  "(EgressId \<times> EgressIds) list \<Rightarrow> EgressId \<Rightarrow> EgressId \<Rightarrow> (EgressId \<times> EgressIds) list" where
  "insertPath m ecmpEgressId path =
     AList.update ecmpEgressId
       (insort_insert path (case map_of m ecmpEgressId of None \<Rightarrow> [] | Some ids \<Rightarrow> ids)) m"

text \<open>
  The inner loop of both loader loops: \<open>ecmpEgressId\<close> is the \<open>int64_t\<close> read from
  the entry, narrowed where it indexes the map; each path is read with \<open>asInt\<close>
  and narrowed where it is inserted.
\<close>

fun insertPaths ::
  "(string \<Rightarrow> error + 64 word) \<Rightarrow> int \<Rightarrow> dynamic list \<Rightarrow> (EgressId \<times> EgressIds) list \<Rightarrow>
     error + (EgressId \<times> EgressIds) list" where
  "insertPaths toInt64 ecmpEgressId [] m = Inr m"
| "insertPaths toInt64 ecmpEgressId (path # rest) m =
     bindE (asInt toInt64 path) (\<lambda>p.
       insertPaths toInt64 ecmpEgressId rest
         (insertPath m (toEgressId ecmpEgressId) (toEgressId p)))"

text \<open>
  The loop over the ECMP hosts of the dumped host table. The id is compared
  with \<open>INVALID\<close> as an \<open>int64_t\<close>, before it is narrowed.
\<close>

fun loadEcmpHosts ::
  "json_keys \<Rightarrow> (string \<Rightarrow> error + 64 word) \<Rightarrow> dynamic list \<Rightarrow>
     (EgressId \<times> EgressIds) list \<Rightarrow> error + (EgressId \<times> EgressIds) list" where
  "loadEcmpHosts ks toInt64 [] m = Inr m"
| "loadEcmpHosts ks toInt64 (ecmpEntry # rest) m =
     bindE (dynAt ecmpEntry (kEcmpEgressId ks)) (\<lambda>idDyn.
     bindE (asInt toInt64 idDyn) (\<lambda>ecmpEgressId.
       if ecmpEgressId = INVALID then loadEcmpHosts ks toInt64 rest m
       else
         bindE (dynAt ecmpEntry (kEcmpEgress ks)) (\<lambda>egressDyn.
         bindE (dynAt egressDyn (kPaths ks)) (\<lambda>pathsDyn.
         bindE (dynElements pathsDyn) (\<lambda>paths.
         bindE (insertPaths toInt64 ecmpEgressId paths m) (\<lambda>m'.
           loadEcmpHosts ks toInt64 rest m'))))))"

text \<open>
  The loop over the ECMP objects of the dumped warm boot cache; here too the
  \<open>CHECK\<close> tests the \<open>int64_t\<close>.
\<close>

fun loadEcmpObjects ::
  "json_keys \<Rightarrow> (string \<Rightarrow> error + 64 word) \<Rightarrow> dynamic list \<Rightarrow>
     (EgressId \<times> EgressIds) list \<Rightarrow> error + (EgressId \<times> EgressIds) list" where
  "loadEcmpObjects ks toInt64 [] m = Inr m"
| "loadEcmpObjects ks toInt64 (ecmpEntry # rest) m =
     bindE (dynAt ecmpEntry (kEcmpEgressId ks)) (\<lambda>idDyn.
     bindE (asInt toInt64 idDyn) (\<lambda>ecmpEgressId.
       if \<not> ecmpEgressId \<noteq> INVALID
       then Inl (CheckFailed ''ecmpEgressId != BcmEgressBase::INVALID'')
       else
         bindE (dynAt ecmpEntry (kPaths ks)) (\<lambda>pathsDyn.
         bindE (dynElements pathsDyn) (\<lambda>paths.
         bindE (insertPaths toInt64 ecmpEgressId paths m) (\<lambda>m'.
           loadEcmpObjects ks toInt64 rest m')))))"

text \<open>
  \<open>populateStateFromWarmbootFile\<close> from the point where the file has been read and
  parsed: \<open>switchStateJson\<close> is the parsed text. Decoding the software switch
  state is the work of \<open>SwitchState::uniquePtrFromFollyDynamic\<close>, which is not
  among the sources and is a parameter; \<open>None\<close> is the null pointer. \<open>toInt64\<close>
  is the conversion that \<open>asInt\<close> applies to a string.
\<close>

definition populateStateFromWarmbootFile ::
  "json_keys \<Rightarrow> (dynamic \<Rightarrow> SwitchState option) \<Rightarrow> (string \<Rightarrow> error + 64 word) \<Rightarrow> dynamic \<Rightarrow>
     BcmWarmBootCache \<Rightarrow> error + BcmWarmBootCache" where
  "populateStateFromWarmbootFile ks uniquePtrFromFollyDynamic toInt64 switchStateJson c =
     bindE (dynItems switchStateJson) (\<lambda>kvs.
       let dumped = (case map_of kvs (kSwSwitch ks) of
                       Some sw \<Rightarrow> uniquePtrFromFollyDynamic sw
                     | None \<Rightarrow> uniquePtrFromFollyDynamic switchStateJson);
           c1 = c\<lparr>dumpedSwSwitchState := dumped\<rparr>
       in if dumped = None then Inl (CheckFailed ''dumpedSwSwitchState_'')
          else if map_of kvs (kHwSwitch ks) = None then Inr c1
          else
            (let c2 = c1\<lparr>hwSwitchEcmp2EgressIdsPopulated := True\<rparr> in
             bindE (dynIndex switchStateJson (kHwSwitch ks)) (\<lambda>hwSwitch.
             bindE (dynIndex hwSwitch (kHostTable ks)) (\<lambda>hostTable.
             bindE (dynIndex hostTable (kEcmpHosts ks)) (\<lambda>ecmpHostsDyn.
             bindE (dynElements ecmpHostsDyn) (\<lambda>ecmpHosts.
             bindE (loadEcmpHosts ks toInt64 ecmpHosts (hwSwitchEcmp2EgressIds c2)) (\<lambda>m1.
             bindE (dynIndex hwSwitch (kWarmBootCache ks)) (\<lambda>warmBootCache.
             bindE (dynIndex warmBootCache kEcmpObjects) (\<lambda>ecmpObjectsDyn.
             bindE (dynElements ecmpObjectsDyn) (\<lambda>ecmpObjects.
             bindE (loadEcmpObjects ks toInt64 ecmpObjects m1) (\<lambda>m2.
               Inr (c2\<lparr>hwSwitchEcmp2EgressIds := m2\<rparr>))))))))))))"

text \<open>
  The warm boot file of the next cycle, as far as the loader reads it: the
  software switch state \<open>sw\<close>, the ECMP hosts \<open>ecmpHosts\<close> of the dumped host
  table, and the dumped warm boot cache \<open>warmBootCache\<close>.
\<close>

definition warmBootFile :: "json_keys \<Rightarrow> dynamic \<Rightarrow> dynamic list \<Rightarrow> dynamic \<Rightarrow> dynamic" where
  "warmBootFile ks sw ecmpHosts warmBootCache =
     DObject
       [(kSwSwitch ks, sw),
        (kHwSwitch ks,
           DObject
             [(kHostTable ks, DObject [(kEcmpHosts ks, DArray ecmpHosts)]),
              (kWarmBootCache ks, warmBootCache)])]"

text \<open>The path set stored for a group id; the empty set for an id that is not stored.\<close>

definition pathsOf :: "(EgressId \<times> EgressIds) list \<Rightarrow> EgressId \<Rightarrow> EgressId set" where
  "pathsOf m ecmp = (case map_of m ecmp of None \<Rightarrow> {} | Some ids \<Rightarrow> set ids)"

text \<open>
  The ECMP path maps of the round trip: one entry per group id and every id a
  32-bit value, which holds of every \<open>flat_map\<close> from \<open>EgressId\<close> to \<open>EgressIds\<close>,
  and no entry under the invalid id.
\<close>

definition ecmpMapValid :: "(EgressId \<times> EgressIds) list \<Rightarrow> bool" where
  "ecmpMapValid m \<longleftrightarrow>
     distinct (map fst m) \<and> INVALID \<notin> fst ` set m \<and>
     (\<forall>x \<in> set m. isEgressId (fst x) \<and> (\<forall>p \<in> set (snd x). isEgressId p))"

section \<open>Concrete parameters for the examples\<close>

definition exampleFlags :: sdk_flags where
  "exampleFlags =
     \<lparr> OPENNSL_L3_IP6 = 0x20000, OPENNSL_L3_DST_DISCARD = 0x100000,
       OPENNSL_L3_L2TOCPU = 0x1, OPENNSL_L3_COPY_TO_CPU = 0x800000 \<rparr>"

definition exampleKeys :: json_keys where
  "exampleKeys =
     \<lparr> kSwSwitch = ''swSwitch'', kHwSwitch = ''hwSwitch'', kHostTable = ''hostTable'',
       kEcmpHosts = ''ecmpHosts'', kEcmpEgress = ''ecmpEgress'',
       kEcmpEgressId = ''ecmpEgressId'', kPaths = ''paths'',
       kWarmBootCache = ''warmBootCache'' \<rparr>"

definition exampleEgress :: "32 word \<Rightarrow> VlanID \<Rightarrow> opennsl_l3_egress_t" where
  "exampleEgress flags vlan =
     \<lparr> egress_flags = flags, egress_vlan = vlan, egress_intf = vlan,
       egress_mac_addr = 0x020000000001, egress_port = 1 \<rparr>"

definition exampleRoute :: "32 word \<Rightarrow> 32 word \<Rightarrow> opennsl_l3_route_t" where
  "exampleRoute subnet netmask =
     \<lparr> route_l3a_flags = 0, route_l3a_vrf = 0, route_l3a_subnet = subnet,
       route_l3a_ip_mask = netmask, route_l3a_ip6_net = 0, route_l3a_ip6_mask = 0,
       route_l3a_intf = 100002 \<rparr>"

definition exampleHost :: "32 word \<Rightarrow> EgressId \<Rightarrow> opennsl_l3_host_t" where
  "exampleHost addr egressId =
     \<lparr> host_l3a_flags = 0, host_l3a_vrf = 0, host_l3a_ip_addr = addr,
       host_l3a_ip6_addr = 0, host_l3a_intf = egressId \<rparr>"

definition exampleSdk :: sdk where
  "exampleSdk = \<lparr> sdk_delete = (\<lambda>trace call. 0), opennsl_vlan_default_get = (0, 1) \<rparr>"

definition exampleIntf :: opennsl_l3_intf_t where
  "exampleIntf = \<lparr> l3a_vid = 2, l3a_vrf = 0, l3a_mac_addr = 0x020000000002, l3a_mtu = 1500 \<rparr>"

definition exampleEcmp :: opennsl_l3_egress_ecmp_t where
  "exampleEcmp = \<lparr> ecmp_intf = 200256, ecmp_max_paths = 2 \<rparr>"

definition exampleCache :: BcmWarmBootCache where
  "exampleCache = BcmWarmBootCache_ctor
     \<lparr> vlan2VlanInfo :=
         [(1, \<lparr>vi_vlan = 1, vi_untagged = [], vi_allPorts = [], vi_intfID = 0\<rparr>),
          (2, \<lparr>vi_vlan = 2, vi_untagged = [1], vi_allPorts = [1, 2], vi_intfID = 2\<rparr>)],
       vlan2Station := [(2, \<lparr>station_dst_mac = 0x020000000002, station_flags = 0\<rparr>)],
       vlanAndMac2Intf := [((2, 0x020000000002), exampleIntf)],
       vrfIp2Host := [((0, V4 0x0A000005), exampleHost 0x0A000005 100002)],
       vrfPrefix2Route :=
         [((0, V4 0x0A000000, V4 0xFFFFFF00), exampleRoute 0x0A000000 0xFFFFFF00)],
       vrfAndIP2Route := [((0, V4 0x0A000005), exampleRoute 0x0A000005 (- 1))],
       egressId2EgressAndBool :=
         [(100002, (exampleEgress 0 2, False)), (100003, (exampleEgress 0 2, False))],
       egressIds2Ecmp := [([100002, 100003], exampleEcmp)] \<rparr>"

definition exampleClaims :: "hw_obj list" where
  "exampleClaims =
     [HostEntry (0, V4 0x0A000005), EgressObj 100002, L3Intf (2, 0x020000000002), VlanObj 2]"

definition exampleSwitchState :: SwitchState where
  "exampleSwitchState =
     \<lparr> getInterfaces = Some
         [(2, \<lparr> if_id = 2, if_routerID = 0, if_vlanID = 2, if_name = ''fboss2'',
                if_mac = 0x020000000002, if_mtu = 1500,
                if_addresses = [(V4 0x0A000001, 24)] \<rparr>)],
       getVlans = Some
         [(1, newVlan 1 ''default''),
          (2, (newVlan 2 ''vlan2'')
                \<lparr>vlan_arpTable :=
                   [(0x0A000005, ResolvedEntry 0x020000000001 1 2 REACHABLE)]\<rparr>)] \<rparr>"

text \<open>
  The example cache after loading the snapshot, with a second host entry
  10.0.0.9 that the snapshot does not list as a neighbor.
\<close>

definition exampleWarmCache :: BcmWarmBootCache where
  "exampleWarmCache = exampleCache
     \<lparr> dumpedSwSwitchState := Some exampleSwitchState,
       vrfIp2Host :=
         [((0, V4 0x0A000005), exampleHost 0x0A000005 100002),
          ((0, V4 0x0A000009), exampleHost 0x0A000009 100003)] \<rparr>"

section \<open>Verified properties: ECMP path lookup\<close>

text \<open>
  Claim C4 (as amended). When the persisted ECMP data was loaded (the populated
  flag is set), \<open>getPathsForEcmp\<close> returns the stored member set of a group id
  that is in the stored map; for an id that is not in a non-empty stored map
  it throws the not-found error; when the stored map is empty it returns the
  empty set for every id. When the flag is not set, the call fails its
  \<open>CHECK\<close> and aborts, whatever the map holds.
\<close>

theorem getPathsForEcmp_cases:
  "(hwSwitchEcmp2EgressIdsPopulated c \<and> map_of (hwSwitchEcmp2EgressIds c) e = Some ids
      \<longrightarrow> getPathsForEcmp c e = Inr ids) \<and>
   (hwSwitchEcmp2EgressIdsPopulated c \<and> hwSwitchEcmp2EgressIds c \<noteq> [] \<and>
      map_of (hwSwitchEcmp2EgressIds c) e = None
      \<longrightarrow> (\<exists>msg. getPathsForEcmp c e = Inl (FbossError msg))) \<and>
   (hwSwitchEcmp2EgressIdsPopulated c \<and> hwSwitchEcmp2EgressIds c = []
      \<longrightarrow> getPathsForEcmp c e = Inr []) \<and>
   (\<not> hwSwitchEcmp2EgressIdsPopulated c
      \<longrightarrow> (\<exists>msg. getPathsForEcmp c e = Inl (CheckFailed msg)))"
  by (auto simp: getPathsForEcmp_def kEmptyEgressIds_def)

text \<open>The four cases of C4 on concrete caches.\<close>

theorem getPathsForEcmp_cases_witness:
  "getPathsForEcmp
     (BcmWarmBootCache_ctor\<lparr>hwSwitchEcmp2EgressIdsPopulated := True,
        hwSwitchEcmp2EgressIds := [(5, [10, 11])]\<rparr>) 5 = Inr [10, 11] \<and>
   (\<exists>msg. getPathsForEcmp
     (BcmWarmBootCache_ctor\<lparr>hwSwitchEcmp2EgressIdsPopulated := True,
        hwSwitchEcmp2EgressIds := [(5, [10, 11])]\<rparr>) 6 = Inl (FbossError msg)) \<and>
   getPathsForEcmp
     (BcmWarmBootCache_ctor\<lparr>hwSwitchEcmp2EgressIdsPopulated := True\<rparr>) 6 = Inr [] \<and>
   (\<exists>msg. getPathsForEcmp
     (BcmWarmBootCache_ctor\<lparr>hwSwitchEcmp2EgressIdsPopulated := False\<rparr>) 6
       = Inl (CheckFailed msg))"
  using getPathsForEcmp_cases [of "BcmWarmBootCache_ctor\<lparr>hwSwitchEcmp2EgressIdsPopulated := True,
        hwSwitchEcmp2EgressIds := [(5, [10, 11])]\<rparr>" 5 "[10, 11]"]
    getPathsForEcmp_cases [of "BcmWarmBootCache_ctor\<lparr>hwSwitchEcmp2EgressIdsPopulated := True,
        hwSwitchEcmp2EgressIds := [(5, [10, 11])]\<rparr>" 6]
    getPathsForEcmp_cases [of "BcmWarmBootCache_ctor\<lparr>hwSwitchEcmp2EgressIdsPopulated := True\<rparr>" 6]
    getPathsForEcmp_cases
      [of "BcmWarmBootCache_ctor\<lparr>hwSwitchEcmp2EgressIdsPopulated := False\<rparr>" 6]
  by (simp add: BcmWarmBootCache_ctor_def populatedInitially_def)

text \<open>
  Claim C4 as stated fails on a cache whose ECMP data was never populated (the
  flag is unset and the stored map is empty): the lookup does not return the
  empty set, it aborts on the \<open>CHECK\<close> of the populated flag.
\<close>

theorem getPathsForEcmp_never_populated_counterexample:
  "\<not> hwSwitchEcmp2EgressIdsPopulated
       (BcmWarmBootCache_ctor\<lparr>hwSwitchEcmp2EgressIdsPopulated := False\<rparr>) \<and>
   hwSwitchEcmp2EgressIds
       (BcmWarmBootCache_ctor\<lparr>hwSwitchEcmp2EgressIdsPopulated := False\<rparr>) = [] \<and>
   getPathsForEcmp (BcmWarmBootCache_ctor\<lparr>hwSwitchEcmp2EgressIdsPopulated := False\<rparr>) 5 =
     Inl (CheckFailed ''hwSwitchEcmp2EgressIdsPopulated_'') \<and>
   getPathsForEcmp (BcmWarmBootCache_ctor\<lparr>hwSwitchEcmp2EgressIdsPopulated := False\<rparr>) 5 \<noteq>
     Inr kEmptyEgressIds"
  by (simp add: getPathsForEcmp_def BcmWarmBootCache_ctor_def)

text \<open>
  Claim C5. When the persisted lookup for the callback's group id throws the
  not-found error, the ECMP traversal callback returns normally with the cache
  unchanged exactly when the hardware-reported member count is zero; with a
  non-zero count the same not-found error leaves the callback.
\<close>

theorem ecmp_callback_not_found:
  "getPathsForEcmp c (ecmp_intf ecmp) = Inl (FbossError ex) \<Longrightarrow>
     (ecmpEgressTraversalCallback c ecmp intfCount intfArray = Inr c \<longleftrightarrow> intfCount = 0) \<and>
     (intfCount \<noteq> 0 \<longrightarrow>
        ecmpEgressTraversalCallback c ecmp intfCount intfArray = Inl (FbossError ex))"
  by (auto simp: ecmpEgressTraversalCallback_def ecmpResolve_def getPathsForEcmp_def
      split: if_splits option.splits)

text \<open>
  C5 on the double-wide artifact of the source comment: group 200256 is
  persisted, the callback arrives for 200257.
\<close>

theorem ecmp_callback_not_found_witness:
  "getPathsForEcmp (BcmWarmBootCache_ctor\<lparr>hwSwitchEcmp2EgressIdsPopulated := True,
        hwSwitchEcmp2EgressIds := [(200256, [10, 11])]\<rparr>) 200257
     = Inl (FbossError ''Could not find ecmp ID : '') \<and>
   ecmpEgressTraversalCallback (BcmWarmBootCache_ctor\<lparr>hwSwitchEcmp2EgressIdsPopulated := True,
        hwSwitchEcmp2EgressIds := [(200256, [10, 11])]\<rparr>)
      \<lparr>ecmp_intf = 200257, ecmp_max_paths = 0\<rparr> 0 []
     = Inr (BcmWarmBootCache_ctor\<lparr>hwSwitchEcmp2EgressIdsPopulated := True,
        hwSwitchEcmp2EgressIds := [(200256, [10, 11])]\<rparr>) \<and>
   ecmpEgressTraversalCallback (BcmWarmBootCache_ctor\<lparr>hwSwitchEcmp2EgressIdsPopulated := True,
        hwSwitchEcmp2EgressIds := [(200256, [10, 11])]\<rparr>)
      \<lparr>ecmp_intf = 200257, ecmp_max_paths = 0\<rparr> 1 [10]
     = Inl (FbossError ''Could not find ecmp ID : '')"
proof -
  let ?c = "BcmWarmBootCache_ctor\<lparr>hwSwitchEcmp2EgressIdsPopulated := True,
        hwSwitchEcmp2EgressIds := [(200256, [10, 11])]\<rparr>"
  let ?e = "\<lparr>ecmp_intf = 200257, ecmp_max_paths = 0\<rparr>"
  have h: "getPathsForEcmp ?c (ecmp_intf ?e) = Inl (FbossError ''Could not find ecmp ID : '')"
    by (simp add: getPathsForEcmp_def)
  show ?thesis
    using h ecmp_callback_not_found [OF h, of 0 "[]"] ecmp_callback_not_found [OF h, of 1 "[10]"]
    by simp
qed

text \<open>
  Claim C3. When the persisted ECMP data was populated and holds a member set
  for the group id of the callback, the outcome of the callback does not
  depend on the hardware-reported member list, and whenever the callback
  records the group, it records it under the persisted member set: that key
  maps to the group afterwards and no other key of the table changes.
\<close>

theorem ecmp_callback_prefers_persisted:
  assumes "hwSwitchEcmp2EgressIdsPopulated c"
    and "map_of (hwSwitchEcmp2EgressIds c) (ecmp_intf ecmp) = Some ids"
  shows "ecmpEgressTraversalCallback c ecmp intfCount intfArray =
           ecmpEgressTraversalCallback c ecmp intfCount' intfArray' \<and>
         (\<forall>c'. ecmpEgressTraversalCallback c ecmp intfCount intfArray = Inr c' \<longrightarrow>
            map_of (egressIds2Ecmp c') ids = Some ecmp \<and>
            fst ` set (egressIds2Ecmp c') = insert ids (fst ` set (egressIds2Ecmp c)) \<and>
            (\<forall>k. k \<noteq> ids \<longrightarrow> map_of (egressIds2Ecmp c') k = map_of (egressIds2Ecmp c) k))"
proof -
  from assms have ne: "hwSwitchEcmp2EgressIds c \<noteq> []" by auto
  with assms have g: "getPathsForEcmp c (ecmp_intf ecmp) = Inr ids"
    by (simp add: getPathsForEcmp_def)
  have r: "\<And>n a. ecmpResolve c ecmp n a = Inr (Some ids)"
    using assms g by (simp add: ecmpResolve_def)
  show ?thesis
    by (auto simp: ecmpEgressTraversalCallback_def r update_conv' dom_update split: if_splits)
qed

text \<open>
  C3 on the example of the spec: persisted data \<open>{5: {10, 11}}\<close>, hardware
  report \<open>{5: {10}}\<close>; the group is recorded under \<open>{10, 11}\<close>.
\<close>

theorem ecmp_callback_prefers_persisted_witness:
  "ecmpEgressTraversalCallback
      (BcmWarmBootCache_ctor\<lparr>hwSwitchEcmp2EgressIdsPopulated := True,
         hwSwitchEcmp2EgressIds := [(5, [10, 11])]\<rparr>)
      \<lparr>ecmp_intf = 5, ecmp_max_paths = 2\<rparr> 1 [10]
    = Inr (BcmWarmBootCache_ctor\<lparr>hwSwitchEcmp2EgressIdsPopulated := True,
         hwSwitchEcmp2EgressIds := [(5, [10, 11])],
         egressIds2Ecmp := [([10, 11], \<lparr>ecmp_intf = 5, ecmp_max_paths = 2\<rparr>)]\<rparr>) \<and>
   map_of (egressIds2Ecmp (BcmWarmBootCache_ctor\<lparr>hwSwitchEcmp2EgressIdsPopulated := True,
         hwSwitchEcmp2EgressIds := [(5, [10, 11])],
         egressIds2Ecmp := [([10, 11], \<lparr>ecmp_intf = 5, ecmp_max_paths = 2\<rparr>)]\<rparr>)) [10, 11]
    = Some \<lparr>ecmp_intf = 5, ecmp_max_paths = 2\<rparr>"
proof -
  let ?c = "BcmWarmBootCache_ctor\<lparr>hwSwitchEcmp2EgressIdsPopulated := True,
         hwSwitchEcmp2EgressIds := [(5, [10, 11])]\<rparr>"
  let ?e = "\<lparr>ecmp_intf = 5, ecmp_max_paths = 2\<rparr>"
  have p: "hwSwitchEcmp2EgressIdsPopulated ?c" by simp
  have m: "map_of (hwSwitchEcmp2EgressIds ?c) (ecmp_intf ?e) = Some [10, 11]" by simp
  have r: "ecmpEgressTraversalCallback ?c ?e 1 [10] =
     Inr (?c\<lparr>egressIds2Ecmp := [([10, 11], ?e)]\<rparr>)"
    by (simp add: ecmpEgressTraversalCallback_def ecmpResolve_def getPathsForEcmp_def
        BcmWarmBootCache_ctor_def populatedInitially_def)
  show ?thesis
    using ecmp_callback_prefers_persisted [OF p m, of 1 "[10]" 1 "[10]"] r
    by simp
qed

section \<open>Verified properties: route classification\<close>

lemma isFullMask_iff:
  "isFullMask a \<longleftrightarrow> a = V4 (- 1) \<or> a = V6 (- 1)"
proof (cases a)
  case (V4 m)
  have "(\<forall>n < 32. bit m n) \<longleftrightarrow> m = - 1"
    by (auto simp: bit_eq_iff bit_simps dest: bit_imp_le_length)
  with V4 show ?thesis by simp
next
  case (V6 m)
  have "(\<forall>n < 128. bit m n) \<longleftrightarrow> m = - 1"
    by (auto simp: bit_eq_iff bit_simps dest: bit_imp_le_length)
  with V6 show ?thesis by simp
qed


text \<open>
  Claim C6. A route seen by the route traversal callback is stored as a host
  route, under the key (VRF, address), exactly when the platform allows host
  routes in the host table and the mask of the route has every bit of its
  address family set; then the prefix-route table is left as it was. In every
  other case, a full mask with promotion disabled included, it is stored as a
  prefix route under the key (VRF, address, mask) and the host-route table is
  left as it was. No other field of the cache changes.
\<close>

theorem route_classification:
  "(canUse \<and> isFullMask (routeMask fl route) \<longrightarrow>
      map_of (vrfAndIP2Route (routeTraversalCallback fl canUse cache route))
        (route_l3a_vrf route, routeAddress fl route) = Some route \<and>
      routeTraversalCallback fl canUse cache route =
        cache\<lparr>vrfAndIP2Route := vrfAndIP2Route (routeTraversalCallback fl canUse cache route)\<rparr>) \<and>
   (\<not> (canUse \<and> isFullMask (routeMask fl route)) \<longrightarrow>
      map_of (vrfPrefix2Route (routeTraversalCallback fl canUse cache route))
        (route_l3a_vrf route, routeAddress fl route, routeMask fl route) = Some route \<and>
      routeTraversalCallback fl canUse cache route =
        cache\<lparr>vrfPrefix2Route := vrfPrefix2Route (routeTraversalCallback fl canUse cache route)\<rparr>)"
  by (auto simp: routeTraversalCallback_def routeAddress_def routeMask_def routeIsIPv6_def
      isFullMask_iff getFullMaskIPv4Address_def getFullMaskIPv6Address_def Let_def update_conv')


text \<open>
  C6 on the route 10.0.0.5/32: a host route when promotion is enabled, a prefix
  route when it is disabled.
\<close>

theorem route_classification_witness:
  "map_of (vrfAndIP2Route (routeTraversalCallback exampleFlags True BcmWarmBootCache_ctor
      \<lparr>route_l3a_flags = 0, route_l3a_vrf = 0, route_l3a_subnet = 0x0A000005,
        route_l3a_ip_mask = - 1, route_l3a_ip6_net = 0, route_l3a_ip6_mask = 0,
        route_l3a_intf = 100002\<rparr>)) (0, V4 0x0A000005)
     = Some \<lparr>route_l3a_flags = 0, route_l3a_vrf = 0, route_l3a_subnet = 0x0A000005,
        route_l3a_ip_mask = - 1, route_l3a_ip6_net = 0, route_l3a_ip6_mask = 0,
        route_l3a_intf = 100002\<rparr> \<and>
   vrfPrefix2Route (routeTraversalCallback exampleFlags True BcmWarmBootCache_ctor
      \<lparr>route_l3a_flags = 0, route_l3a_vrf = 0, route_l3a_subnet = 0x0A000005,
        route_l3a_ip_mask = - 1, route_l3a_ip6_net = 0, route_l3a_ip6_mask = 0,
        route_l3a_intf = 100002\<rparr>) = [] \<and>
   map_of (vrfPrefix2Route (routeTraversalCallback exampleFlags False BcmWarmBootCache_ctor
      \<lparr>route_l3a_flags = 0, route_l3a_vrf = 0, route_l3a_subnet = 0x0A000005,
        route_l3a_ip_mask = - 1, route_l3a_ip6_net = 0, route_l3a_ip6_mask = 0,
        route_l3a_intf = 100002\<rparr>)) (0, V4 0x0A000005, V4 (- 1))
     = Some \<lparr>route_l3a_flags = 0, route_l3a_vrf = 0, route_l3a_subnet = 0x0A000005,
        route_l3a_ip_mask = - 1, route_l3a_ip6_net = 0, route_l3a_ip6_mask = 0,
        route_l3a_intf = 100002\<rparr> \<and>
   vrfAndIP2Route (routeTraversalCallback exampleFlags False BcmWarmBootCache_ctor
      \<lparr>route_l3a_flags = 0, route_l3a_vrf = 0, route_l3a_subnet = 0x0A000005,
        route_l3a_ip_mask = - 1, route_l3a_ip6_net = 0, route_l3a_ip6_mask = 0,
        route_l3a_intf = 100002\<rparr>) = []"
proof -
  let ?r = "\<lparr>route_l3a_flags = 0, route_l3a_vrf = 0, route_l3a_subnet = 0x0A000005,
        route_l3a_ip_mask = - 1, route_l3a_ip6_net = 0, route_l3a_ip6_mask = 0,
        route_l3a_intf = 100002\<rparr>"
  have m: "routeMask exampleFlags ?r = V4 (- 1)" "routeAddress exampleFlags ?r = V4 0x0A000005"
    by (simp_all add: routeMask_def routeAddress_def routeIsIPv6_def exampleFlags_def)
  have f: "isFullMask (routeMask exampleFlags ?r)"
    by (simp add: m isFullMask_iff)
  have e: "vrfPrefix2Route BcmWarmBootCache_ctor = []" "vrfAndIP2Route BcmWarmBootCache_ctor = []"
    by (simp_all add: BcmWarmBootCache_ctor_def populatedInitially_def)
  from route_classification [of True exampleFlags ?r BcmWarmBootCache_ctor] f m
  have 1: "map_of (vrfAndIP2Route (routeTraversalCallback exampleFlags True BcmWarmBootCache_ctor ?r))
          (0, V4 0x0A000005) = Some ?r"
    and 2: "routeTraversalCallback exampleFlags True BcmWarmBootCache_ctor ?r =
        BcmWarmBootCache_ctor\<lparr>vrfAndIP2Route :=
          vrfAndIP2Route (routeTraversalCallback exampleFlags True BcmWarmBootCache_ctor ?r)\<rparr>"
    by simp_all
  from route_classification [of False exampleFlags ?r BcmWarmBootCache_ctor] m
  have 3: "map_of (vrfPrefix2Route (routeTraversalCallback exampleFlags False BcmWarmBootCache_ctor ?r))
          (0, V4 0x0A000005, V4 (- 1)) = Some ?r"
    and 4: "routeTraversalCallback exampleFlags False BcmWarmBootCache_ctor ?r =
        BcmWarmBootCache_ctor\<lparr>vrfPrefix2Route :=
          vrfPrefix2Route (routeTraversalCallback exampleFlags False BcmWarmBootCache_ctor ?r)\<rparr>"
    by simp_all
  have 5: "vrfPrefix2Route (routeTraversalCallback exampleFlags True BcmWarmBootCache_ctor ?r) = []"
    by (subst 2) (simp add: e)
  have 6: "vrfAndIP2Route (routeTraversalCallback exampleFlags False BcmWarmBootCache_ctor ?r) = []"
    by (subst 4) (simp add: e)
  from 1 3 5 6 show ?thesis by simp
qed


section \<open>Verified properties: egress roles\<close>

lemma unreferenced_Cons:
  "unreferenced refs ((i, e) # rest) =
     (if i \<in> set refs then unreferenced refs rest else e # unreferenced refs rest)"
  by (simp add: unreferenced_def)

lemma cb_referenced:
  "map_of (egressId2EgressAndBool c) i = None \<Longrightarrow> i \<in> set (egressOrEcmpIdsFromHostTable c) \<Longrightarrow>
   egressTraversalCallback fl c i e =
     Inr (c\<lparr>egressId2EgressAndBool := AList.update i (e, False) (egressId2EgressAndBool c)\<rparr>)"
  by (simp add: egressTraversalCallback_def)

lemma cb_drop:
  "map_of (egressId2EgressAndBool c) i = None \<Longrightarrow> i \<notin> set (egressOrEcmpIdsFromHostTable c) \<Longrightarrow>
   hasDropFlag fl e \<Longrightarrow>
   egressTraversalCallback fl c i e =
     (if dropEgressId c \<noteq> INVALID then Inl (LogFatal ''duplicated drop egress found in HW'')
      else Inr (c\<lparr>dropEgressId := i\<rparr>))"
  by (simp add: egressTraversalCallback_def hasDropFlag_def)

lemma cb_toCPU:
  "map_of (egressId2EgressAndBool c) i = None \<Longrightarrow> i \<notin> set (egressOrEcmpIdsFromHostTable c) \<Longrightarrow>
   \<not> hasDropFlag fl e \<Longrightarrow> hasToCPUFlag fl e \<Longrightarrow>
   egressTraversalCallback fl c i e =
     (if toCPUEgressId c \<noteq> INVALID
      then Inl (LogFatal ''duplicated generic TO_CPU egress found in HW'')
      else Inr (c\<lparr>toCPUEgressId := i\<rparr>))"
  by (simp add: egressTraversalCallback_def hasDropFlag_def hasToCPUFlag_def)

lemma cb_unexplained:
  "map_of (egressId2EgressAndBool c) i = None \<Longrightarrow> i \<notin> set (egressOrEcmpIdsFromHostTable c) \<Longrightarrow>
   \<not> hasDropFlag fl e \<Longrightarrow> \<not> hasToCPUFlag fl e \<Longrightarrow>
   egressTraversalCallback fl c i e =
     Inl (LogFatal ''The egress is not referenced by any host entry'')"
  by (simp add: egressTraversalCallback_def hasDropFlag_def hasToCPUFlag_def)

lemma egressTraverse_ok_iff:
  "distinct (map fst tbl) \<Longrightarrow>
   fst ` set tbl \<inter> fst ` set (egressId2EgressAndBool c) = {} \<Longrightarrow>
   INVALID \<notin> fst ` set tbl \<Longrightarrow>
   (\<exists>c'. egressTraverse fl c tbl = Inr c') \<longleftrightarrow> rolesFrom fl c tbl"
proof (induction tbl arbitrary: c)
  case Nil
  then show ?case by (simp add: unreferenced_def rolesFrom_def)
next
  case (Cons p rest)
  obtain i e where p: "p = (i, e)" by (cases p)
  from Cons.prems p have fresh: "map_of (egressId2EgressAndBool c) i = None"
    by (auto simp: map_of_eq_None_iff)
  from Cons.prems p have i: "i \<noteq> INVALID" "i \<notin> fst ` set rest" "distinct (map fst rest)"
    "INVALID \<notin> fst ` set rest" "fst ` set rest \<inter> fst ` set (egressId2EgressAndBool c) = {}"
    by auto
  consider (ref) "i \<in> set (egressOrEcmpIdsFromHostTable c)"
    | (drop) "i \<notin> set (egressOrEcmpIdsFromHostTable c)" "hasDropFlag fl e"
    | (cpu) "i \<notin> set (egressOrEcmpIdsFromHostTable c)" "\<not> hasDropFlag fl e" "hasToCPUFlag fl e"
    | (none) "i \<notin> set (egressOrEcmpIdsFromHostTable c)" "\<not> hasDropFlag fl e"
        "\<not> hasToCPUFlag fl e"
    by blast
  then show ?case
  proof cases
    case ref
    let ?c1 = "c\<lparr>egressId2EgressAndBool := AList.update i (e, False) (egressId2EgressAndBool c)\<rparr>"
    have d: "fst ` set rest \<inter> fst ` set (egressId2EgressAndBool ?c1) = {}"
      using i(2,5) by (simp add: dom_update)
    have "rolesFrom fl c (p # rest) = rolesFrom fl ?c1 rest"
      using ref by (simp add: rolesFrom_def p unreferenced_Cons)
    then show ?thesis
      using Cons.IH [OF i(3) d i(4)] by (simp add: p cb_referenced [OF fresh ref])
  next
    case drop
    show ?thesis
    proof (cases "dropEgressId c \<noteq> INVALID")
      case True
      then show ?thesis
        using drop by (simp add: p cb_drop [OF fresh drop] rolesFrom_def unreferenced_Cons)
    next
      case False
      let ?c1 = "c\<lparr>dropEgressId := i\<rparr>"
      have d: "fst ` set rest \<inter> fst ` set (egressId2EgressAndBool ?c1) = {}"
        using i(5) by simp
      have "rolesFrom fl c (p # rest) = rolesFrom fl ?c1 rest"
        using drop False i(1) by (simp add: rolesFrom_def p unreferenced_Cons)
      then show ?thesis
        using Cons.IH [OF i(3) d i(4)] False by (simp add: p cb_drop [OF fresh drop])
    qed
  next
    case cpu
    show ?thesis
    proof (cases "toCPUEgressId c \<noteq> INVALID")
      case True
      then show ?thesis
        using cpu by (simp add: p cb_toCPU [OF fresh cpu] rolesFrom_def unreferenced_Cons)
    next
      case False
      let ?c1 = "c\<lparr>toCPUEgressId := i\<rparr>"
      have d: "fst ` set rest \<inter> fst ` set (egressId2EgressAndBool ?c1) = {}"
        using i(5) by simp
      have "rolesFrom fl c (p # rest) = rolesFrom fl ?c1 rest"
        using cpu False i(1) by (simp add: rolesFrom_def p unreferenced_Cons)
      then show ?thesis
        using Cons.IH [OF i(3) d i(4)] False by (simp add: p cb_toCPU [OF fresh cpu])
    qed
  next
    case none
    then show ?thesis
      by (simp add: p cb_unexplained [OF fresh none] rolesFrom_def unreferenced_Cons)
  qed
qed

lemma egressTraverse_fatal_kind:
  "distinct (map fst tbl) \<Longrightarrow>
   fst ` set tbl \<inter> fst ` set (egressId2EgressAndBool c) = {} \<Longrightarrow>
   egressTraverse fl c tbl = Inl err \<Longrightarrow> roleFatal err"
proof (induction tbl arbitrary: c)
  case Nil
  then show ?case by simp
next
  case (Cons p rest)
  obtain i e where p: "p = (i, e)" by (cases p)
  from Cons.prems p have fresh: "map_of (egressId2EgressAndBool c) i = None"
    by (auto simp: map_of_eq_None_iff)
  from Cons.prems p have i: "i \<notin> fst ` set rest" "distinct (map fst rest)"
    "fst ` set rest \<inter> fst ` set (egressId2EgressAndBool c) = {}"
    by auto
  consider (ref) "i \<in> set (egressOrEcmpIdsFromHostTable c)"
    | (drop) "i \<notin> set (egressOrEcmpIdsFromHostTable c)" "hasDropFlag fl e"
    | (cpu) "i \<notin> set (egressOrEcmpIdsFromHostTable c)" "\<not> hasDropFlag fl e" "hasToCPUFlag fl e"
    | (none) "i \<notin> set (egressOrEcmpIdsFromHostTable c)" "\<not> hasDropFlag fl e"
        "\<not> hasToCPUFlag fl e"
    by blast
  then show ?case
  proof cases
    case ref
    let ?c1 = "c\<lparr>egressId2EgressAndBool := AList.update i (e, False) (egressId2EgressAndBool c)\<rparr>"
    have d: "fst ` set rest \<inter> fst ` set (egressId2EgressAndBool ?c1) = {}"
      using i(1,3) by (simp add: dom_update)
    from Cons.prems(3) have "egressTraverse fl ?c1 rest = Inl err"
      by (simp add: p cb_referenced [OF fresh ref])
    from Cons.IH [OF i(2) d this] show ?thesis .
  next
    case drop
    show ?thesis
    proof (cases "dropEgressId c \<noteq> INVALID")
      case True
      with Cons.prems(3) show ?thesis
        by (simp add: p cb_drop [OF fresh drop] roleFatal_def)
    next
      case False
      let ?c1 = "c\<lparr>dropEgressId := i\<rparr>"
      have d: "fst ` set rest \<inter> fst ` set (egressId2EgressAndBool ?c1) = {}"
        using i(3) by simp
      from Cons.prems(3) False have "egressTraverse fl ?c1 rest = Inl err"
        by (simp add: p cb_drop [OF fresh drop])
      from Cons.IH [OF i(2) d this] show ?thesis .
    qed
  next
    case cpu
    show ?thesis
    proof (cases "toCPUEgressId c \<noteq> INVALID")
      case True
      with Cons.prems(3) show ?thesis
        by (simp add: p cb_toCPU [OF fresh cpu] roleFatal_def)
    next
      case False
      let ?c1 = "c\<lparr>toCPUEgressId := i\<rparr>"
      have d: "fst ` set rest \<inter> fst ` set (egressId2EgressAndBool ?c1) = {}"
        using i(3) by simp
      from Cons.prems(3) False have "egressTraverse fl ?c1 rest = Inl err"
        by (simp add: p cb_toCPU [OF fresh cpu])
      from Cons.IH [OF i(2) d this] show ?thesis .
    qed
  next
    case none
    with Cons.prems(3) show ?thesis
      by (simp add: p cb_unexplained [OF fresh none] roleFatal_def)
  qed
qed


text \<open>
  Claim C7 (as amended). Take an egress traversal that starts with no role
  assigned and no egress object recorded, over a hardware table that reports
  each id once and never the invalid id. The traversal completes, reaching none
  of the fatal branches, exactly when among the egress objects that no
  host-table entry references at most one carries the drop flag, at most one
  carries a to-CPU flag without the drop flag, and each carries one of these
  flags. When the traversal does not complete, it ends in one of the three
  fatal branches: duplicated drop egress, duplicated to-CPU egress, or an
  unreferenced egress with neither flag.
\<close>

theorem egress_roles_enforced:
  assumes "distinct (map fst tbl)" and "INVALID \<notin> fst ` set tbl"
    and "egressId2EgressAndBool c = []"
    and "dropEgressId c = INVALID" and "toCPUEgressId c = INVALID"
  shows "((\<exists>c'. egressTraverse fl c tbl = Inr c') \<longleftrightarrow>
            rolesExplained fl (egressOrEcmpIdsFromHostTable c) tbl) \<and>
         (\<forall>err. egressTraverse fl c tbl = Inl err \<longrightarrow> roleFatal err)"
proof -
  have d: "fst ` set tbl \<inter> fst ` set (egressId2EgressAndBool c) = {}"
    using assms(3) by simp
  have "rolesFrom fl c tbl = rolesExplained fl (egressOrEcmpIdsFromHostTable c) tbl"
    using assms(4,5) by (simp add: rolesFrom_def rolesExplained_def)
  then show ?thesis
    using egressTraverse_ok_iff [OF assms(1) d assms(2), of fl]
      egressTraverse_fatal_kind [OF assms(1) d, of fl]
    by simp
qed

lemma exampleFlags_tests:
  "hasDropFlag exampleFlags (exampleEgress 0x100000 0)"
  "\<not> hasToCPUFlag exampleFlags (exampleEgress 0x100000 0)"
  "hasDropFlag exampleFlags (exampleEgress 0x100001 0)"
  "hasToCPUFlag exampleFlags (exampleEgress 0x100001 0)"
  "\<not> hasDropFlag exampleFlags (exampleEgress 0x1 0)"
  "hasToCPUFlag exampleFlags (exampleEgress 0x1 0)"
  "\<not> hasDropFlag exampleFlags (exampleEgress 0 0)"
  "\<not> hasToCPUFlag exampleFlags (exampleEgress 0 0)"
  by (simp_all add: hasDropFlag_def hasToCPUFlag_def exampleFlags_def exampleEgress_def)


text \<open>
  C7 on a table with one referenced egress, one drop egress and one to-CPU
  egress, which completes; and on a table with two drop egresses, which ends in
  a fatal branch.
\<close>

theorem egress_roles_enforced_witness:
  "rolesExplained exampleFlags [100000]
     [(100000, exampleEgress 0 0), (100001, exampleEgress 0x100000 0),
      (100002, exampleEgress 0x1 0)] \<and>
   (\<exists>c'. egressTraverse exampleFlags
      (BcmWarmBootCache_ctor\<lparr>egressOrEcmpIdsFromHostTable := [100000]\<rparr>)
      [(100000, exampleEgress 0 0), (100001, exampleEgress 0x100000 0),
       (100002, exampleEgress 0x1 0)] = Inr c') \<and>
   \<not> rolesExplained exampleFlags [100000]
     [(100001, exampleEgress 0x100000 0), (100002, exampleEgress 0x100000 0)] \<and>
   egressTraverse exampleFlags
      (BcmWarmBootCache_ctor\<lparr>egressOrEcmpIdsFromHostTable := [100000]\<rparr>)
      [(100001, exampleEgress 0x100000 0), (100002, exampleEgress 0x100000 0)]
     = Inl (LogFatal ''duplicated drop egress found in HW'') \<and>
   roleFatal (LogFatal ''duplicated drop egress found in HW'')"
proof -
  let ?c = "BcmWarmBootCache_ctor\<lparr>egressOrEcmpIdsFromHostTable := [100000]\<rparr>"
  let ?t1 = "[(100000 :: EgressId, exampleEgress 0 0), (100001, exampleEgress 0x100000 0),
              (100002, exampleEgress 0x1 0)]"
  let ?t2 = "[(100001 :: EgressId, exampleEgress 0x100000 0),
              (100002, exampleEgress 0x100000 0)]"
  have c: "egressId2EgressAndBool ?c = []" "dropEgressId ?c = INVALID"
    "toCPUEgressId ?c = INVALID" "egressOrEcmpIdsFromHostTable ?c = [100000]"
    by (simp_all add: BcmWarmBootCache_ctor_def populatedInitially_def)
  have d1: "distinct (map fst ?t1)" "INVALID \<notin> fst ` set ?t1"
    by (simp_all add: INVALID_def)
  have d2: "distinct (map fst ?t2)" "INVALID \<notin> fst ` set ?t2"
    by (simp_all add: INVALID_def)
  have r1: "rolesExplained exampleFlags [100000] ?t1"
    by (simp add: rolesExplained_def unreferenced_def exampleFlags_tests)
  have r2: "\<not> rolesExplained exampleFlags [100000] ?t2"
    by (simp add: rolesExplained_def unreferenced_def exampleFlags_tests)
  have e2: "egressTraverse exampleFlags ?c ?t2 =
      Inl (LogFatal ''duplicated drop egress found in HW'')"
    by (simp add: cb_drop BcmWarmBootCache_ctor_def populatedInitially_def exampleFlags_tests INVALID_def)
  note w1 = egress_roles_enforced [OF d1 c(1,2,3), of exampleFlags, unfolded c(4)]
  note w2 = egress_roles_enforced [OF d2 c(1,2,3), of exampleFlags, unfolded c(4)]
  have a1: "\<exists>c'. egressTraverse exampleFlags ?c ?t1 = Inr c'"
    using w1 [THEN conjunct1] r1 by simp
  have a2: "roleFatal (LogFatal ''duplicated drop egress found in HW'')"
    using w2 [THEN conjunct2, rule_format, OF e2] .
  show ?thesis by (intro conjI r1 a1 r2 e2 a2)
qed

text \<open>
  Claim C7 as stated fails in both directions. A single unreferenced egress
  with neither flag satisfies "at most one drop, at most one to-CPU", and the
  traversal is fatal. Two unreferenced egresses that both carry a to-CPU flag,
  the first with the drop flag as well, violate it, and the traversal completes:
  the first takes the drop role, the second the to-CPU role.
\<close>

theorem egress_roles_as_stated_counterexample:
  "atMostOnePerFlag exampleFlags [] [(100001, exampleEgress 0 0)] \<and>
   egressTraverse exampleFlags BcmWarmBootCache_ctor [(100001, exampleEgress 0 0)]
     = Inl (LogFatal ''The egress is not referenced by any host entry'') \<and>
   \<not> atMostOnePerFlag exampleFlags []
       [(100001, exampleEgress 0x100001 0), (100002, exampleEgress 0x1 0)] \<and>
   egressTraverse exampleFlags BcmWarmBootCache_ctor
       [(100001, exampleEgress 0x100001 0), (100002, exampleEgress 0x1 0)]
     = Inr (BcmWarmBootCache_ctor\<lparr>dropEgressId := 100001, toCPUEgressId := 100002\<rparr>)"
proof -
  have c: "egressId2EgressAndBool BcmWarmBootCache_ctor = []"
    "egressOrEcmpIdsFromHostTable BcmWarmBootCache_ctor = []"
    "dropEgressId BcmWarmBootCache_ctor = INVALID"
    "toCPUEgressId BcmWarmBootCache_ctor = INVALID"
    by (simp_all add: BcmWarmBootCache_ctor_def populatedInitially_def)
  have 1: "atMostOnePerFlag exampleFlags [] [(100001, exampleEgress 0 0)]"
    by (simp add: atMostOnePerFlag_def unreferenced_def exampleFlags_tests)
  have 2: "egressTraverse exampleFlags BcmWarmBootCache_ctor [(100001, exampleEgress 0 0)]
     = Inl (LogFatal ''The egress is not referenced by any host entry'')"
    by (simp add: cb_unexplained c exampleFlags_tests)
  have 3: "\<not> atMostOnePerFlag exampleFlags []
       [(100001, exampleEgress 0x100001 0), (100002, exampleEgress 0x1 0)]"
    by (simp add: atMostOnePerFlag_def unreferenced_def exampleFlags_tests)
  have 4: "egressTraverse exampleFlags BcmWarmBootCache_ctor
       [(100001, exampleEgress 0x100001 0), (100002, exampleEgress 0x1 0)]
     = Inr (BcmWarmBootCache_ctor\<lparr>dropEgressId := 100001, toCPUEgressId := 100002\<rparr>)"
    by (simp add: cb_drop cb_toCPU c exampleFlags_tests)
  from 1 2 3 4 show ?thesis by simp
qed

section \<open>Verified properties: teardown\<close>

lemma runsOver_sweep: "runsOver trace xs (sweep hw msg xs trace)"
proof (induction xs arbitrary: trace)
  case Nil
  show ?case by (simp add: runsOver_def)
next
  case (Cons p xs)
  obtain obj call where p: "p = (obj, call)" by (cases p)
  show ?case
  proof (cases "bcmLogFatal (sdk_delete hw trace call) msg")
    case (Inl e)
    then have "sweep hw msg (p # xs) trace = (trace @ [p], Inl e)"
      by (simp add: p)
    then show ?thesis
      by (auto simp: runsOver_def intro!: exI [of _ "[p]"])
  next
    case (Inr u)
    then have s: "sweep hw msg (p # xs) trace = sweep hw msg xs (trace @ [p])"
      by (simp add: p)
    from Cons.IH [of "trace @ [p]"] obtain ys where
      ys: "prefix ys xs" "fst (sweep hw msg xs (trace @ [p])) = (trace @ [p]) @ ys"
        "\<forall>a. snd (sweep hw msg xs (trace @ [p])) = Inr a \<longrightarrow> ys = xs"
      unfolding runsOver_def by blast
    show ?thesis
      unfolding runsOver_def s
      using ys by (intro exI [of _ "p # ys"]) auto
  qed
qed

lemma runsOver_andThen:
  assumes "runsOver trace xs r" and "\<And>trace' a. runsOver trace' zs (f trace' a)"
  shows "runsOver trace (xs @ zs) (andThen r f)"
proof -
  from assms(1) obtain ys where
    ys: "prefix ys xs" "fst r = trace @ ys" "\<forall>a. snd r = Inr a \<longrightarrow> ys = xs"
    unfolding runsOver_def by blast
  show ?thesis
  proof (cases "snd r")
    case (Inl e)
    then have "andThen r f = (fst r, Inl e)"
      by (cases r) (simp add: andThen_def)
    then show ?thesis
      using ys by (auto simp: runsOver_def intro!: exI [of _ ys] dest: prefix_order.trans)
  next
    case (Inr a)
    with ys have fr: "fst r = trace @ xs" by simp
    from Inr fr have at: "andThen r f = f (trace @ xs) a"
      by (cases r) (simp add: andThen_def)
    from assms(2) [of "trace @ xs" a] obtain ws where
      ws: "prefix ws zs" "fst (f (trace @ xs) a) = (trace @ xs) @ ws"
        "\<forall>b. snd (f (trace @ xs) a) = Inr b \<longrightarrow> ws = zs"
      unfolding runsOver_def by blast
    show ?thesis
      unfolding runsOver_def at
      using ws by (intro exI [of _ "xs @ ws"]) auto
  qed
qed

lemma runsOver_done: "runsOver trace [] (trace, x)"
  by (simp add: runsOver_def)

lemma clear_runsOver:
  "runsOver [] (teardownPlan (snd (opennsl_vlan_default_get hw)) c) (clear hw c)"
proof -
  have "runsOver []
     (map (\<lambda>(k, route). (PrefixRoute k, opennsl_l3_route_delete route)) (vrfPrefix2Route c) @
      map (\<lambda>(k, route). (HostRoute k, opennsl_l3_route_delete route)) (vrfAndIP2Route c) @
      map (\<lambda>(k, host). (HostEntry k, opennsl_l3_host_delete host)) (vrfIp2Host c) @
      map (\<lambda>(ids, ecmp). (EcmpGroup ids, opennsl_l3_egress_ecmp_destroy ecmp)) (egressIds2Ecmp c) @
      map (\<lambda>(egressId, egressAndBool). (EgressObj egressId, opennsl_l3_egress_destroy egressId))
        (filter (\<lambda>(egressId, egressAndBool). \<not> snd egressAndBool) (egressId2EgressAndBool c)) @
      map (\<lambda>(k, intf). (L3Intf k, opennsl_l3_intf_delete intf)) (vlanAndMac2Intf c) @
      map (\<lambda>(vlan, station). (L2Station vlan, opennsl_l2_station_delete vlan)) (vlan2Station c) @
      [] @
      map (\<lambda>(vlan, info). (VlanObj vlan, opennsl_vlan_destroy vlan))
        (filter (\<lambda>(vlan, info). snd (opennsl_vlan_default_get hw) \<noteq> vlan) (vlan2VlanInfo c)) @
      [])
     (clear hw c)"
    unfolding clear_def Let_def case_prod_unfold
    apply (rule runsOver_andThen, simp, rule runsOver_sweep)+
    apply (rule runsOver_andThen, simp, rule runsOver_done)
    apply (rule runsOver_andThen, simp, rule runsOver_sweep)
    apply (rule runsOver_done)
    done
  then show ?thesis by (simp add: teardownPlan_def case_prod_unfold)
qed

lemma clear_prefix:
  "prefix (fst (clear hw c)) (teardownPlan (snd (opennsl_vlan_default_get hw)) c)"
  using clear_runsOver [of hw c] by (auto simp: runsOver_def)

lemma clear_complete:
  "snd (clear hw c) = Inr c' \<Longrightarrow>
     fst (clear hw c) = teardownPlan (snd (opennsl_vlan_default_get hw)) c"
  using clear_runsOver [of hw c] by (auto simp: runsOver_def)

lemma sorted_map_const: "sorted (map (\<lambda>x. n :: nat) xs)"
  by (induction xs) auto

lemma teardownPlan_sorted: "sorted (map (stage \<circ> fst) (teardownPlan dv c))"
  by (auto simp: teardownPlan_def sorted_append comp_def case_prod_unfold sorted_map_const)

lemma sorted_prefix: "prefix xs ys \<Longrightarrow> sorted (ys :: nat list) \<Longrightarrow> sorted xs"
  by (auto simp: prefix_def sorted_append)

lemma prefix_contains_head:
  assumes "prefix t (A @ B)" and "j < length t" and "t ! j \<notin> set A"
  shows "set A \<subseteq> set (take j t)"
proof -
  from assms(1) obtain zs where z: "A @ B = t @ zs" by (auto simp: prefix_def)
  have "\<not> j < length A"
  proof
    assume l: "j < length A"
    have "t ! j = (t @ zs) ! j" using assms(2) by (simp add: nth_append)
    also have "\<dots> = A ! j" using l z [symmetric] by (simp add: nth_append)
    finally show False using assms(3) l by simp
  qed
  then have le: "length A \<le> j" by simp
  have "take j t = take j (t @ zs)" using assms(2) by simp
  also have "\<dots> = A @ take (j - length A) B" using le z [symmetric] by simp
  finally show ?thesis by simp
qed

lemma set_delete: "set (AList.delete k al) = {p \<in> set al. fst p \<noteq> k}"
  by (auto simp: AList.delete_eq)

lemma keys_delete: "fst ` set (AList.delete k al) = fst ` set al - {k}"
  by (auto simp: set_delete)

lemma set_update_distinct:
  "distinct (map fst al) \<Longrightarrow> map_of al k = Some v \<Longrightarrow>
     set (AList.update k v' al) = insert (k, v') (set al - {(k, v)})"
proof (induction al)
  case Nil
  then show ?case by simp
next
  case (Cons p al)
  show ?case
  proof (cases "fst p = k")
    case True
    with Cons.prems have "p = (k, v)" by (cases p) simp
    moreover from Cons.prems True have "(k, v) \<notin> set al" by (force simp: image_iff)
    ultimately show ?thesis by auto
  next
    case False
    with Cons.prems have "map_of al k = Some v" "distinct (map fst al)" by auto
    from Cons.IH [OF this(2,1)] False show ?thesis by (cases p) auto
  qed
qed

lemma unclaimedEgress_claimed:
  assumes "distinct (map fst al)" and "map_of al i = Some (e, b)"
  shows "fst ` {x \<in> set (AList.update i (e, True) al). \<not> snd (snd x)} =
         fst ` {x \<in> set al. \<not> snd (snd x)} - {i}"
proof -
  have k: "\<And>v. (i, v) \<in> set al \<Longrightarrow> v = (e, b)"
    using assms by (metis map_of_is_SomeI option.inject)
  have s: "{x \<in> set (AList.update i (e, True) al). \<not> snd (snd x)} =
           {x \<in> set al. \<not> snd (snd x)} - {(i, (e, b))}"
    unfolding set_update_distinct [OF assms] by auto
  show ?thesis
  proof (rule set_eqI)
    fix j
    show "j \<in> fst ` {x \<in> set (AList.update i (e, True) al). \<not> snd (snd x)} \<longleftrightarrow>
          j \<in> fst ` {x \<in> set al. \<not> snd (snd x)} - {i}"
    proof
      assume "j \<in> fst ` {x \<in> set (AList.update i (e, True) al). \<not> snd (snd x)}"
      then obtain x where x: "x \<in> set al" "\<not> snd (snd x)" "x \<noteq> (i, (e, b))" "j = fst x"
        unfolding s by blast
      have "fst x \<noteq> i"
      proof
        assume "fst x = i"
        then have "(i, snd x) \<in> set al" using x(1) by (metis prod.collapse)
        from k [OF this] have "x = (i, (e, b))" using \<open>fst x = i\<close> by (metis prod.collapse)
        with x(3) show False by simp
      qed
      with x show "j \<in> fst ` {x \<in> set al. \<not> snd (snd x)} - {i}" by blast
    next
      assume "j \<in> fst ` {x \<in> set al. \<not> snd (snd x)} - {i}"
      then obtain x where x: "x \<in> set al" "\<not> snd (snd x)" "j = fst x" "fst x \<noteq> i"
        by blast
      then have "x \<noteq> (i, (e, b))" by auto
      with x show "j \<in> fst ` {x \<in> set (AList.update i (e, True) al). \<not> snd (snd x)}"
        unfolding s by blast
    qed
  qed
qed

lemma claim_distinct:
  "distinct (map fst (egressId2EgressAndBool c)) \<Longrightarrow>
     distinct (map fst (egressId2EgressAndBool (claim x c)))"
  by (cases x) (auto simp: distinct_update split: option.splits)

lemma pending_iff:
  "PrefixRoute k \<in> pending c \<longleftrightarrow> k \<in> fst ` set (vrfPrefix2Route c)"
  "HostRoute k2 \<in> pending c \<longleftrightarrow> k2 \<in> fst ` set (vrfAndIP2Route c)"
  "HostEntry k2 \<in> pending c \<longleftrightarrow> k2 \<in> fst ` set (vrfIp2Host c)"
  "EcmpGroup ids \<in> pending c \<longleftrightarrow> ids \<in> fst ` set (egressIds2Ecmp c)"
  "EgressObj i \<in> pending c \<longleftrightarrow> i \<in> unclaimedEgress c"
  "L3Intf k3 \<in> pending c \<longleftrightarrow> k3 \<in> fst ` set (vlanAndMac2Intf c)"
  "L2Station v \<in> pending c \<longleftrightarrow> v \<in> fst ` set (vlan2Station c)"
  "VlanObj v \<in> pending c \<longleftrightarrow> v \<in> fst ` set (vlan2VlanInfo c)"
  by (auto simp add: pending_def)

lemma unclaimedEgress_claim:
  assumes "distinct (map fst (egressId2EgressAndBool c))"
  shows "unclaimedEgress (claim (EgressObj i) c) = unclaimedEgress c - {i}"
proof (cases "map_of (egressId2EgressAndBool c) i")
  case None
  then have "i \<notin> fst ` set (egressId2EgressAndBool c)"
    by (simp add: map_of_eq_None_iff)
  then have "i \<notin> unclaimedEgress c" unfolding unclaimedEgress_def by blast
  with None show ?thesis by simp
next
  case (Some v)
  obtain e b where v: "v = (e, b)" by (cases v)
  show ?thesis
    using unclaimedEgress_claimed [OF assms Some [unfolded v]]
    by (simp add: Some v unclaimedEgress_def)
qed

lemma claim_pending_iff:
  assumes "distinct (map fst (egressId2EgressAndBool c))"
  shows "obj \<in> pending (claim x c) \<longleftrightarrow> obj \<in> pending c \<and> obj \<noteq> x"
proof (cases x)
  case (PrefixRoute k)
  then show ?thesis
    by (cases obj) (simp_all add: pending_iff keys_delete unclaimedEgress_def)
next
  case (HostRoute k)
  then show ?thesis
    by (cases obj) (simp_all add: pending_iff keys_delete unclaimedEgress_def)
next
  case (HostEntry k)
  then show ?thesis
    by (cases obj) (simp_all add: pending_iff keys_delete unclaimedEgress_def)
next
  case (EcmpGroup ids)
  then show ?thesis
    by (cases obj) (simp_all add: pending_iff keys_delete unclaimedEgress_def)
next
  case (EgressObj i)
  have k: "vrfPrefix2Route (claim (EgressObj i) c) = vrfPrefix2Route c"
    "vrfAndIP2Route (claim (EgressObj i) c) = vrfAndIP2Route c"
    "vrfIp2Host (claim (EgressObj i) c) = vrfIp2Host c"
    "egressIds2Ecmp (claim (EgressObj i) c) = egressIds2Ecmp c"
    "vlanAndMac2Intf (claim (EgressObj i) c) = vlanAndMac2Intf c"
    "vlan2Station (claim (EgressObj i) c) = vlan2Station c"
    "vlan2VlanInfo (claim (EgressObj i) c) = vlan2VlanInfo c"
    by (simp_all split: option.splits)
  have u: "unclaimedEgress (claim (EgressObj i) c) = unclaimedEgress c - {i}"
    by (rule unclaimedEgress_claim [OF assms])
  show ?thesis
    by (cases obj) (simp_all add: pending_iff k u EgressObj del: claim.simps)
next
  case (L3Intf k)
  then show ?thesis
    by (cases obj) (simp_all add: pending_iff keys_delete unclaimedEgress_def)
next
  case (L2Station v)
  then show ?thesis
    by (cases obj) (simp_all add: pending_iff keys_delete unclaimedEgress_def)
next
  case (VlanObj v)
  then show ?thesis
    by (cases obj) (simp_all add: pending_iff keys_delete unclaimedEgress_def)
qed

lemma claim_pending:
  assumes "distinct (map fst (egressId2EgressAndBool c))"
  shows "pending (claim x c) = pending c - {x}"
  using claim_pending_iff [OF assms] by blast

lemma reconcile_distinct:
  "distinct (map fst (egressId2EgressAndBool c)) \<Longrightarrow>
     distinct (map fst (egressId2EgressAndBool (reconcile S c)))"
  unfolding reconcile_def
  by (induction S arbitrary: c) (simp_all add: claim_distinct)

lemma reconcile_pending:
  "distinct (map fst (egressId2EgressAndBool c)) \<Longrightarrow>
     pending (reconcile S c) = pending c - set S"
  unfolding reconcile_def
proof (induction S arbitrary: c)
  case Nil
  show ?case by simp
next
  case (Cons x S)
  have "pending (fold claim S (claim x c)) = pending (claim x c) - set S"
    by (rule Cons.IH) (rule claim_distinct [OF Cons.prems])
  then show ?case
    by (auto simp: claim_pending [OF Cons.prems])
qed

lemma teardownPlan_objs: "fst ` set (teardownPlan dv c) = pending c - {VlanObj dv}"
proof -
  have v: "(\<lambda>x. VlanObj (fst x)) ` {x \<in> set (vlan2VlanInfo c). dv \<noteq> fst x} =
           VlanObj ` fst ` set (vlan2VlanInfo c) - {VlanObj dv}"
    by auto
  have "fst ` set (teardownPlan dv c) =
     PrefixRoute ` fst ` set (vrfPrefix2Route c) \<union>
     HostRoute ` fst ` set (vrfAndIP2Route c) \<union>
     HostEntry ` fst ` set (vrfIp2Host c) \<union>
     EcmpGroup ` fst ` set (egressIds2Ecmp c) \<union>
     EgressObj ` unclaimedEgress c \<union>
     L3Intf ` fst ` set (vlanAndMac2Intf c) \<union>
     L2Station ` fst ` set (vlan2Station c) \<union>
     (VlanObj ` fst ` set (vlan2VlanInfo c) - {VlanObj dv})"
    unfolding v [symmetric]
    by (simp add: teardownPlan_def unclaimedEgress_def case_prod_unfold image_Un image_image
        Un_assoc)
  also have "\<dots> = pending c - {VlanObj dv}"
    unfolding pending_def by blast
  finally show ?thesis .
qed

lemma pending_fresh:
  assumes "\<forall>x \<in> set (egressId2EgressAndBool c). \<not> snd (snd x)"
  shows "pending c = discovered c"
proof -
  have "{x \<in> set (egressId2EgressAndBool c). \<not> snd (snd x)} = set (egressId2EgressAndBool c)"
    using assms by blast
  then have "unclaimedEgress c = fst ` set (egressId2EgressAndBool c)"
    by (simp add: unclaimedEgress_def)
  then show ?thesis by (simp add: pending_def discovered_def)
qed

lemma teardownPlan_egress_call:
  "(obj, opennsl_l3_egress_destroy i) \<in> set (teardownPlan dv c) \<Longrightarrow> obj = EgressObj i"
  by (auto simp: teardownPlan_def)


text \<open>
  Claim C1 (as amended). Start from a discovered cache, in which no egress
  object is claimed yet, and let a reconciliation pass claim the objects of
  \<open>S\<close>. Whatever the hardware answers, the teardown issues deletions only for
  discovered objects that are not in \<open>S\<close> and are not the default VLAN. When the
  teardown returns, that is when no hardware call failed, it has issued a
  deletion for every such object. An egress object in \<open>S\<close>, whose claimed flag is
  therefore set, is never destroyed.
\<close>

theorem clear_deletes_unclaimed:
  assumes "distinct (map fst (egressId2EgressAndBool c0))"
    and "\<forall>x \<in> set (egressId2EgressAndBool c0). \<not> snd (snd x)"
  shows "fst ` set (fst (clear hw (reconcile S c0))) \<subseteq>
           discovered c0 - set S - {VlanObj (snd (opennsl_vlan_default_get hw))} \<and>
         (\<forall>c'. snd (clear hw (reconcile S c0)) = Inr c' \<longrightarrow>
            fst ` set (fst (clear hw (reconcile S c0))) =
              discovered c0 - set S - {VlanObj (snd (opennsl_vlan_default_get hw))}) \<and>
         (\<forall>i. EgressObj i \<in> set S \<longrightarrow>
            opennsl_l3_egress_destroy i \<notin> snd ` set (fst (clear hw (reconcile S c0))))"
proof -
  let ?dv = "snd (opennsl_vlan_default_get hw)"
  let ?c = "reconcile S c0"
  let ?t = "fst (clear hw ?c)"
  have objs: "fst ` set (teardownPlan ?dv ?c) = discovered c0 - set S - {VlanObj ?dv}"
    by (simp add: teardownPlan_objs reconcile_pending [OF assms(1)] pending_fresh [OF assms(2)])
  have sub: "set ?t \<subseteq> set (teardownPlan ?dv ?c)"
    by (rule set_mono_prefix) (rule clear_prefix)
  have 1: "fst ` set ?t \<subseteq> discovered c0 - set S - {VlanObj ?dv}"
    using sub objs by blast
  have 2: "\<forall>c'. snd (clear hw ?c) = Inr c' \<longrightarrow>
      fst ` set ?t = discovered c0 - set S - {VlanObj ?dv}"
    using clear_complete [of hw ?c] objs by auto
  have 3: "\<forall>i. EgressObj i \<in> set S \<longrightarrow> opennsl_l3_egress_destroy i \<notin> snd ` set ?t"
  proof (intro allI impI notI)
    fix i
    assume s: "EgressObj i \<in> set S" and "opennsl_l3_egress_destroy i \<in> snd ` set ?t"
    then obtain obj where o: "(obj, opennsl_l3_egress_destroy i) \<in> set ?t" by force
    with sub have "(obj, opennsl_l3_egress_destroy i) \<in> set (teardownPlan ?dv ?c)" by blast
    from teardownPlan_egress_call [OF this] o have "EgressObj i \<in> fst ` set ?t" by force
    with 1 s show False by blast
  qed
  from 1 2 3 show ?thesis by blast
qed

lemma notin_fst_image: "fst x \<notin> fst ` X \<Longrightarrow> x \<notin> X"
  by (rule notI) (erule notE, rule imageI)


text \<open>
  Claim C2 (as amended). In every run of the teardown, complete or cut short by
  a failed hardware call, the deletions are issued in stage order: prefix
  routes, host routes, host entries, ECMP groups, unclaimed egress objects, L3
  interfaces, L2 stations, VLANs. Hence when an egress object is destroyed,
  every route, host entry and ECMP group that the cache still holds at
  teardown, that is every one that was not claimed, has had its deletion
  issued before; and when an L3 interface is deleted, every egress object
  whose claimed flag is not set has had its destruction issued before. The
  teardown looks at nothing but the claimed flag of an egress object: a
  referrer that was claimed is not deleted and does not protect the egress
  object it references.
\<close>

theorem clear_stage_order:
  "sorted (map (stage \<circ> fst) (fst (clear hw c))) \<and>
   (\<forall>j < length (fst (clear hw c)). \<forall>i. fst (fst (clear hw c) ! j) = EgressObj i \<longrightarrow>
      PrefixRoute ` fst ` set (vrfPrefix2Route c) \<union>
      HostRoute ` fst ` set (vrfAndIP2Route c) \<union>
      HostEntry ` fst ` set (vrfIp2Host c) \<union>
      EcmpGroup ` fst ` set (egressIds2Ecmp c) \<subseteq> fst ` set (take j (fst (clear hw c)))) \<and>
   (\<forall>j < length (fst (clear hw c)). \<forall>k. fst (fst (clear hw c) ! j) = L3Intf k \<longrightarrow>
      EgressObj ` unclaimedEgress c \<subseteq> fst ` set (take j (fst (clear hw c))))"
proof -
  define dv where "dv = snd (opennsl_vlan_default_get hw)"
  define t where "t = fst (clear hw c)"
  define A where "A =
     map (\<lambda>(k, route). (PrefixRoute k, opennsl_l3_route_delete route)) (vrfPrefix2Route c) @
     map (\<lambda>(k, route). (HostRoute k, opennsl_l3_route_delete route)) (vrfAndIP2Route c) @
     map (\<lambda>(k, host). (HostEntry k, opennsl_l3_host_delete host)) (vrfIp2Host c) @
     map (\<lambda>(ids, ecmp). (EcmpGroup ids, opennsl_l3_egress_ecmp_destroy ecmp)) (egressIds2Ecmp c)"
  define E where "E =
     map (\<lambda>(egressId, egressAndBool). (EgressObj egressId, opennsl_l3_egress_destroy egressId))
       (filter (\<lambda>(egressId, egressAndBool). \<not> snd egressAndBool) (egressId2EgressAndBool c))"
  define B where "B =
     map (\<lambda>(k, intf). (L3Intf k, opennsl_l3_intf_delete intf)) (vlanAndMac2Intf c) @
     map (\<lambda>(vlan, station). (L2Station vlan, opennsl_l2_station_delete vlan)) (vlan2Station c) @
     map (\<lambda>(vlan, info). (VlanObj vlan, opennsl_vlan_destroy vlan))
       (filter (\<lambda>(vlan, info). dv \<noteq> vlan) (vlan2VlanInfo c))"
  define RA where "RA = PrefixRoute ` fst ` set (vrfPrefix2Route c) \<union>
      HostRoute ` fst ` set (vrfAndIP2Route c) \<union>
      HostEntry ` fst ` set (vrfIp2Host c) \<union>
      EcmpGroup ` fst ` set (egressIds2Ecmp c)"
  have p: "prefix t (teardownPlan dv c)"
    unfolding t_def dv_def by (rule clear_prefix)
  have pl1: "teardownPlan dv c = A @ (E @ B)"
    by (simp add: teardownPlan_def A_def E_def B_def)
  have pl2: "teardownPlan dv c = (A @ E) @ B"
    by (simp add: pl1)
  have A: "fst ` set A = RA"
    by (simp add: A_def RA_def case_prod_unfold image_Un image_image Un_assoc)
  have E: "fst ` set E = EgressObj ` unclaimedEgress c"
    by (simp add: E_def unclaimedEgress_def case_prod_unfold image_image)
  have AE: "fst ` set (A @ E) = RA \<union> EgressObj ` unclaimedEgress c"
    by (simp only: set_append image_Un A E)
  have 1: "sorted (map (stage \<circ> fst) t)"
    by (rule sorted_prefix [OF map_mono_prefix [OF p]]) (rule teardownPlan_sorted)
  have 2: "RA \<subseteq> fst ` set (take j t)"
    if j: "j < length t" and e: "fst (t ! j) = EgressObj i" for j i
  proof -
    have "EgressObj i \<notin> RA" by (auto simp: RA_def)
    then have "fst (t ! j) \<notin> fst ` set A" by (simp only: A e not_False_eq_True)
    then have "t ! j \<notin> set A" by (rule notin_fst_image)
    from prefix_contains_head [OF p [unfolded pl1] j this]
    have "fst ` set A \<subseteq> fst ` set (take j t)" by (rule image_mono)
    then show ?thesis by (simp only: A)
  qed
  have 3: "EgressObj ` unclaimedEgress c \<subseteq> fst ` set (take j t)"
    if j: "j < length t" and e: "fst (t ! j) = L3Intf k" for j k
  proof -
    have "L3Intf k \<notin> RA \<union> EgressObj ` unclaimedEgress c" by (auto simp: RA_def)
    then have "fst (t ! j) \<notin> fst ` set (A @ E)" by (simp only: AE e not_False_eq_True)
    then have "t ! j \<notin> set (A @ E)" by (rule notin_fst_image)
    from prefix_contains_head [OF p [unfolded pl2] j this]
    have "fst ` set (A @ E) \<subseteq> fst ` set (take j t)" by (rule image_mono)
    then show ?thesis unfolding AE by blast
  qed
  from 1 2 3 show ?thesis
    unfolding t_def [symmetric] RA_def [symmetric] by blast
qed

lemma exampleCache_fields:
  "vlan2VlanInfo exampleCache =
         [(1, \<lparr>vi_vlan = 1, vi_untagged = [], vi_allPorts = [], vi_intfID = 0\<rparr>),
          (2, \<lparr>vi_vlan = 2, vi_untagged = [1], vi_allPorts = [1, 2], vi_intfID = 2\<rparr>)]"
  "vlan2Station exampleCache = [(2, \<lparr>station_dst_mac = 0x020000000002, station_flags = 0\<rparr>)]"
  "vlanAndMac2Intf exampleCache = [((2, 0x020000000002), exampleIntf)]"
  "vrfIp2Host exampleCache = [((0, V4 0x0A000005), exampleHost 0x0A000005 100002)]"
  "vrfPrefix2Route exampleCache =
         [((0, V4 0x0A000000, V4 0xFFFFFF00), exampleRoute 0x0A000000 0xFFFFFF00)]"
  "vrfAndIP2Route exampleCache = [((0, V4 0x0A000005), exampleRoute 0x0A000005 (- 1))]"
  "egressId2EgressAndBool exampleCache =
         [(100002, (exampleEgress 0 2, False)), (100003, (exampleEgress 0 2, False))]"
  "egressIds2Ecmp exampleCache = [([100002, 100003], exampleEcmp)]"
  by (simp_all add: exampleCache_def)

lemma reconcile_example:
  "reconcile exampleClaims exampleCache = exampleCache
     \<lparr> vrfIp2Host := [],
       egressId2EgressAndBool :=
         [(100002, (exampleEgress 0 2, True)), (100003, (exampleEgress 0 2, False))],
       vlanAndMac2Intf := [],
       vlan2VlanInfo :=
         [(1, \<lparr>vi_vlan = 1, vi_untagged = [], vi_allPorts = [], vi_intfID = 0\<rparr>)] \<rparr>"
  by (simp add: reconcile_def exampleClaims_def exampleCache_fields)

lemma sweep_exampleSdk:
  "sweep exampleSdk msg xs trace = (trace @ xs, Inr ())"
  by (induction xs arbitrary: trace) (auto simp: exampleSdk_def bcmLogFatal_def)

lemma clear_example:
  "clear exampleSdk (reconcile exampleClaims exampleCache) =
     ([(PrefixRoute (0, V4 0x0A000000, V4 0xFFFFFF00),
          opennsl_l3_route_delete (exampleRoute 0x0A000000 0xFFFFFF00)),
       (HostRoute (0, V4 0x0A000005), opennsl_l3_route_delete (exampleRoute 0x0A000005 (- 1))),
       (EcmpGroup [100002, 100003], opennsl_l3_egress_ecmp_destroy exampleEcmp),
       (EgressObj 100003, opennsl_l3_egress_destroy 100003),
       (L2Station 2, opennsl_l2_station_delete 2)],
      Inr (BcmWarmBootCache_ctor
        \<lparr> vlan2VlanInfo :=
         [(1, \<lparr>vi_vlan = 1, vi_untagged = [], vi_allPorts = [], vi_intfID = 0\<rparr>)] \<rparr>))"
  unfolding reconcile_example
  by (simp add: clear_def andThen_def sweep_exampleSdk exampleCache_fields bcmLogFatal_def
      exampleSdk_def exampleCache_def BcmWarmBootCache_ctor_def populatedInitially_def)


lemma clear_example_all:
  "clear exampleSdk exampleCache =
     ([(PrefixRoute (0, V4 0x0A000000, V4 0xFFFFFF00),
          opennsl_l3_route_delete (exampleRoute 0x0A000000 0xFFFFFF00)),
       (HostRoute (0, V4 0x0A000005), opennsl_l3_route_delete (exampleRoute 0x0A000005 (- 1))),
       (HostEntry (0, V4 0x0A000005), opennsl_l3_host_delete (exampleHost 0x0A000005 100002)),
       (EcmpGroup [100002, 100003], opennsl_l3_egress_ecmp_destroy exampleEcmp),
       (EgressObj 100002, opennsl_l3_egress_destroy 100002),
       (EgressObj 100003, opennsl_l3_egress_destroy 100003),
       (L3Intf (2, 0x020000000002), opennsl_l3_intf_delete exampleIntf),
       (L2Station 2, opennsl_l2_station_delete 2),
       (VlanObj 2, opennsl_vlan_destroy 2)],
      Inr (BcmWarmBootCache_ctor
        \<lparr> vlan2VlanInfo :=
         [(1, \<lparr>vi_vlan = 1, vi_untagged = [], vi_allPorts = [], vi_intfID = 0\<rparr>)] \<rparr>))"
  by (simp add: clear_def andThen_def sweep_exampleSdk exampleCache_fields bcmLogFatal_def
      exampleSdk_def exampleCache_def BcmWarmBootCache_ctor_def populatedInitially_def)


text \<open>
  C1 on the example cache, after claiming the host entry, egress 100002, the
  interface and VLAN 2: the remaining five objects are deleted, the default
  VLAN 1 is not.
\<close>

theorem clear_deletes_unclaimed_witness:
  "distinct (map fst (egressId2EgressAndBool exampleCache)) \<and>
   filter (\<lambda>x. snd (snd x)) (egressId2EgressAndBool exampleCache) = [] \<and>
   fst (clear exampleSdk (reconcile exampleClaims exampleCache)) =
     [(PrefixRoute (0, V4 0x0A000000, V4 0xFFFFFF00),
          opennsl_l3_route_delete (exampleRoute 0x0A000000 0xFFFFFF00)),
      (HostRoute (0, V4 0x0A000005), opennsl_l3_route_delete (exampleRoute 0x0A000005 (- 1))),
      (EcmpGroup [100002, 100003], opennsl_l3_egress_ecmp_destroy exampleEcmp),
      (EgressObj 100003, opennsl_l3_egress_destroy 100003),
      (L2Station 2, opennsl_l2_station_delete 2)] \<and>
   fst ` set (fst (clear exampleSdk (reconcile exampleClaims exampleCache))) =
     discovered exampleCache - set exampleClaims - {VlanObj 1} \<and>
   opennsl_l3_egress_destroy 100002 \<notin>
     snd ` set (fst (clear exampleSdk (reconcile exampleClaims exampleCache)))"
proof -
  have h1: "distinct (map fst (egressId2EgressAndBool exampleCache))"
    by (simp add: exampleCache_fields)
  have h2: "\<forall>x \<in> set (egressId2EgressAndBool exampleCache). \<not> snd (snd x)"
    by (simp add: exampleCache_fields)
  have dv: "snd (opennsl_vlan_default_get exampleSdk) = 1"
    by (simp add: exampleSdk_def)
  have s: "EgressObj 100002 \<in> set exampleClaims"
    by (simp add: exampleClaims_def)
  from clear_deletes_unclaimed [OF h1 h2, of exampleSdk exampleClaims] s
  show ?thesis
    unfolding dv using h1 by (simp add: clear_example exampleCache_fields)
qed


text \<open>
  Claim C1 as stated fails on the same run: VLAN 1 was discovered and never
  claimed, the teardown returns normally, and no deletion is issued for VLAN 1,
  because it is the default VLAN of the hardware.
\<close>

theorem clear_keeps_default_vlan_counterexample:
  "VlanObj 1 \<in> discovered exampleCache - set exampleClaims \<and>
   snd (clear exampleSdk (reconcile exampleClaims exampleCache)) =
     Inr (BcmWarmBootCache_ctor
        \<lparr> vlan2VlanInfo :=
         [(1, \<lparr>vi_vlan = 1, vi_untagged = [], vi_allPorts = [], vi_intfID = 0\<rparr>)] \<rparr>) \<and>
   VlanObj 1 \<notin> fst ` set (fst (clear exampleSdk (reconcile exampleClaims exampleCache)))"
proof -
  have a: "VlanObj 1 \<in> discovered exampleCache - set exampleClaims"
    by (simp add: discovered_def exampleCache_fields exampleClaims_def)
  have b: "snd (clear exampleSdk (reconcile exampleClaims exampleCache)) =
     Inr (BcmWarmBootCache_ctor
        \<lparr> vlan2VlanInfo :=
         [(1, \<lparr>vi_vlan = 1, vi_untagged = [], vi_allPorts = [], vi_intfID = 0\<rparr>)] \<rparr>)"
    by (simp add: clear_example)
  have c: "VlanObj 1 \<notin> fst ` set (fst (clear exampleSdk (reconcile exampleClaims exampleCache)))"
    by (simp add: clear_example)
  show ?thesis by (intro conjI a b c)
qed


text \<open>
  C2 on the teardown of the example cache with nothing claimed: egress 100002
  is destroyed at position 4, after both routes, the host entry and the ECMP
  group; the interface is deleted at position 6, after both egress objects.
\<close>

theorem clear_stage_order_witness:
  "sorted (map (stage \<circ> fst) (fst (clear exampleSdk exampleCache))) \<and>
   4 < length (fst (clear exampleSdk exampleCache)) \<and>
   fst (fst (clear exampleSdk exampleCache) ! 4) = EgressObj 100002 \<and>
   {PrefixRoute (0, V4 0x0A000000, V4 0xFFFFFF00), HostRoute (0, V4 0x0A000005),
    HostEntry (0, V4 0x0A000005), EcmpGroup [100002, 100003]}
     \<subseteq> fst ` set (take 4 (fst (clear exampleSdk exampleCache))) \<and>
   6 < length (fst (clear exampleSdk exampleCache)) \<and>
   fst (fst (clear exampleSdk exampleCache) ! 6) = L3Intf (2, 0x020000000002) \<and>
   {EgressObj 100002, EgressObj 100003}
     \<subseteq> fst ` set (take 6 (fst (clear exampleSdk exampleCache)))"
proof -
  let ?t = "fst (clear exampleSdk exampleCache)"
  have l: "4 < length ?t" "6 < length ?t" by (simp_all add: clear_example_all)
  have e: "fst (?t ! 4) = EgressObj 100002" "fst (?t ! 6) = L3Intf (2, 0x020000000002)"
    by (simp_all add: clear_example_all)
  have u: "unclaimedEgress exampleCache = {100002, 100003}"
    unfolding unclaimedEgress_def exampleCache_fields set_filter [symmetric] by simp
  note th = clear_stage_order [of exampleSdk exampleCache]
  note 1 = th [THEN conjunct1]
  note 2 = th [THEN conjunct2, THEN conjunct1, rule_format, OF l(1) e(1)]
  note 3 = th [THEN conjunct2, THEN conjunct2, rule_format, OF l(2) e(2)]
  from 2 have t2: "{PrefixRoute (0, V4 0x0A000000, V4 0xFFFFFF00), HostRoute (0, V4 0x0A000005),
      HostEntry (0, V4 0x0A000005), EcmpGroup [100002, 100003]} \<subseteq> fst ` set (take 4 ?t)"
    by (simp add: exampleCache_fields)
  from 3 have t3: "{EgressObj 100002, EgressObj 100003} \<subseteq> fst ` set (take 6 ?t)"
    by (simp add: u)
  show ?thesis by (intro conjI 1 l e t2 t3)
qed

text \<open>
  Claim C2 as stated fails when a referrer is claimed and its egress object is
  not. Host entry 10.0.0.5 of the example cache references egress object
  100002. After a reconciliation pass that claims the host entry alone, the
  teardown destroys egress object 100002, and it issues no deletion for the
  host entry, which stays in the hardware with a reference to it.
\<close>

theorem clear_destroys_referenced_egress_counterexample:
  "map_of (vrfIp2Host exampleCache) (0, V4 0x0A000005) = Some (exampleHost 0x0A000005 100002) \<and>
   host_l3a_intf (exampleHost 0x0A000005 100002) = 100002 \<and>
   clear exampleSdk (reconcile [HostEntry (0, V4 0x0A000005)] exampleCache) =
     ([(PrefixRoute (0, V4 0x0A000000, V4 0xFFFFFF00),
          opennsl_l3_route_delete (exampleRoute 0x0A000000 0xFFFFFF00)),
       (HostRoute (0, V4 0x0A000005), opennsl_l3_route_delete (exampleRoute 0x0A000005 (- 1))),
       (EcmpGroup [100002, 100003], opennsl_l3_egress_ecmp_destroy exampleEcmp),
       (EgressObj 100002, opennsl_l3_egress_destroy 100002),
       (EgressObj 100003, opennsl_l3_egress_destroy 100003),
       (L3Intf (2, 0x020000000002), opennsl_l3_intf_delete exampleIntf),
       (L2Station 2, opennsl_l2_station_delete 2),
       (VlanObj 2, opennsl_vlan_destroy 2)],
      Inr (BcmWarmBootCache_ctor
        \<lparr> vlan2VlanInfo :=
         [(1, \<lparr>vi_vlan = 1, vi_untagged = [], vi_allPorts = [], vi_intfID = 0\<rparr>)] \<rparr>)) \<and>
   (EgressObj 100002, opennsl_l3_egress_destroy 100002)
     \<in> set (fst (clear exampleSdk (reconcile [HostEntry (0, V4 0x0A000005)] exampleCache))) \<and>
   HostEntry (0, V4 0x0A000005)
     \<notin> fst ` set (fst (clear exampleSdk (reconcile [HostEntry (0, V4 0x0A000005)] exampleCache)))"
proof -
  have a: "map_of (vrfIp2Host exampleCache) (0, V4 0x0A000005) =
      Some (exampleHost 0x0A000005 100002)"
    by (simp add: exampleCache_fields)
  have b: "host_l3a_intf (exampleHost 0x0A000005 100002) = 100002"
    by (simp add: exampleHost_def)
  have r: "reconcile [HostEntry (0, V4 0x0A000005)] exampleCache =
      exampleCache\<lparr>vrfIp2Host := []\<rparr>"
    by (simp add: reconcile_def exampleCache_fields)
  have c: "clear exampleSdk (reconcile [HostEntry (0, V4 0x0A000005)] exampleCache) =
     ([(PrefixRoute (0, V4 0x0A000000, V4 0xFFFFFF00),
          opennsl_l3_route_delete (exampleRoute 0x0A000000 0xFFFFFF00)),
       (HostRoute (0, V4 0x0A000005), opennsl_l3_route_delete (exampleRoute 0x0A000005 (- 1))),
       (EcmpGroup [100002, 100003], opennsl_l3_egress_ecmp_destroy exampleEcmp),
       (EgressObj 100002, opennsl_l3_egress_destroy 100002),
       (EgressObj 100003, opennsl_l3_egress_destroy 100003),
       (L3Intf (2, 0x020000000002), opennsl_l3_intf_delete exampleIntf),
       (L2Station 2, opennsl_l2_station_delete 2),
       (VlanObj 2, opennsl_vlan_destroy 2)],
      Inr (BcmWarmBootCache_ctor
        \<lparr> vlan2VlanInfo :=
         [(1, \<lparr>vi_vlan = 1, vi_untagged = [], vi_allPorts = [], vi_intfID = 0\<rparr>)] \<rparr>))"
    unfolding r
    by (simp add: clear_def andThen_def sweep_exampleSdk exampleCache_fields bcmLogFatal_def
        exampleSdk_def exampleCache_def BcmWarmBootCache_ctor_def populatedInitially_def)
  have d: "(EgressObj 100002, opennsl_l3_egress_destroy 100002)
     \<in> set (fst (clear exampleSdk (reconcile [HostEntry (0, V4 0x0A000005)] exampleCache)))"
    unfolding c by simp
  have e: "HostEntry (0, V4 0x0A000005)
     \<notin> fst ` set (fst (clear exampleSdk (reconcile [HostEntry (0, V4 0x0A000005)] exampleCache)))"
    unfolding c by simp
  show ?thesis by (intro conjI a b c d e)
qed

section \<open>Verified properties: interface reconstruction\<close>

lemma addNode_fresh:
  "k \<notin> fst ` set nodes \<Longrightarrow> addNode nodes k v = Inr (nodes @ [(k, v)])"
  by (simp add: addNode_def map_of_eq_None_iff)

lemma reconstructInterfaces_outcome:
  "distinct (map (\<lambda>x. l3a_vid (snd x)) xs) \<Longrightarrow>
   (\<lambda>x. l3a_vid (snd x)) ` set xs \<inter> fst ` set acc = {} \<Longrightarrow>
   (if \<forall>x \<in> set xs. getInterfaceIf dumped (l3a_vid (snd x)) \<noteq> None
    then \<exists>m. reconstructInterfaces dumped xs acc = Inr m
    else reconstructInterfaces dumped xs acc = Inl NullDereference)"
proof (induction xs arbitrary: acc)
  case Nil
  show ?case by simp
next
  case (Cons x xs)
  obtain vlanMac bcmIntf where x: "x = (vlanMac, bcmIntf)" by (cases x)
  show ?case
  proof (cases "getInterfaceIf dumped (l3a_vid bcmIntf)")
    case None
    then show ?thesis by (auto simp: x)
  next
    case (Some dumpedInterface)
    let ?new = "\<lparr> if_id = l3a_vid bcmIntf, if_routerID = l3a_vrf bcmIntf,
        if_vlanID = l3a_vid bcmIntf, if_name = if_name dumpedInterface, if_mac = snd vlanMac,
        if_mtu = l3a_mtu bcmIntf, if_addresses = if_addresses dumpedInterface \<rparr>"
    let ?acc = "acc @ [(l3a_vid bcmIntf, ?new)]"
    from Cons.prems have fresh: "l3a_vid bcmIntf \<notin> fst ` set acc"
      by (auto simp: x)
    from Cons.prems have d: "distinct (map (\<lambda>x. l3a_vid (snd x)) xs)"
      and n: "l3a_vid bcmIntf \<notin> (\<lambda>x. l3a_vid (snd x)) ` set xs"
      and dj: "(\<lambda>x. l3a_vid (snd x)) ` set xs \<inter> fst ` set acc = {}"
      by (auto simp: x)
    have dj': "(\<lambda>x. l3a_vid (snd x)) ` set xs \<inter> fst ` set ?acc = {}"
      using n dj by auto
    have step: "reconstructInterfaces dumped (x # xs) acc = reconstructInterfaces dumped xs ?acc"
      by (simp add: x Some addNode_fresh [OF fresh])
    show ?thesis
      unfolding step using Cons.IH [OF d dj'] Some by (simp add: x)
  qed
qed

text \<open>
  Claim C10. Interface reconstruction has an implicit precondition: every
  discovered hardware interface needs an interface with its VLAN id in the
  interface map of the persisted snapshot. With a snapshot that has an
  interface map, and discovered interfaces on distinct VLANs, the
  reconstruction returns a map exactly when the precondition holds; when some
  discovered interface has no snapshot interface, the outcome is the
  dereference of the null pointer that the lookup returned, neither an error
  result nor a map without that interface.
\<close>

theorem reconstructInterfaceMap_needs_snapshot_interface:
  assumes "dumpedSwSwitchState c = Some st" and "getInterfaces st = Some dumped"
    and "distinct (map (\<lambda>x. l3a_vid (snd x)) (vlanAndMac2Intf c))"
  shows "(reconstructInterfaceMap c = Inl NullDereference \<longleftrightarrow>
            (\<exists>x \<in> set (vlanAndMac2Intf c). getInterfaceIf dumped (l3a_vid (snd x)) = None)) \<and>
         ((\<exists>m. reconstructInterfaceMap c = Inr m) \<longleftrightarrow>
            (\<forall>x \<in> set (vlanAndMac2Intf c). getInterfaceIf dumped (l3a_vid (snd x)) \<noteq> None))"
proof -
  have r: "reconstructInterfaceMap c = reconstructInterfaces dumped (vlanAndMac2Intf c) []"
    using assms(1,2) by (simp add: reconstructInterfaceMap_def)
  have "(\<lambda>x. l3a_vid (snd x)) ` set (vlanAndMac2Intf c) \<inter> fst ` set ([] :: InterfaceMap) = {}"
    by simp
  from reconstructInterfaces_outcome [OF assms(3) this, of dumped]
  show ?thesis
    unfolding r by (auto split: if_splits)
qed

text \<open>
  C10 on the example: the discovered interface on VLAN 2 is reconstructed with
  the name and addresses of the snapshot; an interface on VLAN 3, which the
  snapshot does not have, ends in the null dereference.
\<close>

theorem reconstructInterfaceMap_needs_snapshot_interface_witness:
  "reconstructInterfaceMap exampleWarmCache =
     Inr [(2, \<lparr> if_id = 2, if_routerID = 0, if_vlanID = 2, if_name = ''fboss2'',
                 if_mac = 0x020000000002, if_mtu = 1500,
                 if_addresses = [(V4 0x0A000001, 24)] \<rparr>)] \<and>
   reconstructInterfaceMap
     (exampleWarmCache\<lparr>vlanAndMac2Intf :=
        [((3, 0x020000000002), exampleIntf\<lparr>l3a_vid := 3\<rparr>)]\<rparr>) = Inl NullDereference"
proof -
  let ?ifs = "[(2 :: InterfaceID, \<lparr> if_id = 2, if_routerID = 0, if_vlanID = 2,
                 if_name = ''fboss2'', if_mac = 0x020000000002, if_mtu = 1500,
                 if_addresses = [(V4 0x0A000001, 24)] \<rparr>)]"
  let ?c = "exampleWarmCache\<lparr>vlanAndMac2Intf :=
        [((3, 0x020000000002), exampleIntf\<lparr>l3a_vid := 3\<rparr>)]\<rparr>"
  have s: "dumpedSwSwitchState ?c = Some exampleSwitchState"
    "dumpedSwSwitchState exampleWarmCache = Some exampleSwitchState"
    by (simp_all add: exampleWarmCache_def)
  have i: "getInterfaces exampleSwitchState = Some ?ifs"
    by (simp add: exampleSwitchState_def)
  have v: "vlanAndMac2Intf ?c = [((3, 0x020000000002), exampleIntf\<lparr>l3a_vid := 3\<rparr>)]"
    "vlanAndMac2Intf exampleWarmCache = [((2, 0x020000000002), exampleIntf)]"
    by (simp_all add: exampleWarmCache_def exampleCache_def)
  have d: "distinct (map (\<lambda>x. l3a_vid (snd x)) (vlanAndMac2Intf ?c))"
    unfolding v by simp
  have a: "\<exists>x \<in> set (vlanAndMac2Intf ?c). getInterfaceIf ?ifs (l3a_vid (snd x)) = None"
    unfolding v by (simp add: getInterfaceIf_def)
  have 1: "reconstructInterfaceMap ?c = Inl NullDereference"
    using reconstructInterfaceMap_needs_snapshot_interface [OF s(1) i d, THEN conjunct1] a
    by (rule iffD2)
  have 2: "reconstructInterfaceMap exampleWarmCache =
     Inr [(2, \<lparr> if_id = 2, if_routerID = 0, if_vlanID = 2, if_name = ''fboss2'',
                 if_mac = 0x020000000002, if_mtu = 1500,
                 if_addresses = [(V4 0x0A000001, 24)] \<rparr>)]"
    by (simp add: reconstructInterfaceMap_def s(2) i v(2) getInterfaceIf_def addNode_def
        exampleIntf_def)
  show ?thesis by (intro conjI 2 1)
qed

section \<open>Verified properties: neighbor promotion\<close>

lemma hostToNeighbor_V4:
  assumes "hostToNeighbor c (Some dumpedVlans) (vrf, V4 a) = Inr (Some (v, e))"
  shows "a \<in> arpAddresses dumpedVlans v"
proof -
  from assms obtain dumpedVlan where
    g: "map_of dumpedVlans v = Some dumpedVlan" and
    n: "getEntryIf (vlan_arpTable dumpedVlan) a \<noteq> None"
    by (auto simp: hostToNeighbor_def getVlan_def Let_def
        split: option.splits if_splits sum.splits)
  from n have "a \<in> fst ` set (vlan_arpTable dumpedVlan)"
    by (simp add: getEntryIf_def map_of_eq_None_iff)
  with g show ?thesis by (simp add: arpAddresses_def)
qed

lemma hostToNeighbor_V6:
  assumes "hostToNeighbor c (Some dumpedVlans) (vrf, V6 a) = Inr (Some (v, e))"
  shows "a \<in> ndpAddresses dumpedVlans v"
proof -
  from assms obtain dumpedVlan where
    g: "map_of dumpedVlans v = Some dumpedVlan" and
    n: "getEntryIf (vlan_ndpTable dumpedVlan) a \<noteq> None"
    by (auto simp: hostToNeighbor_def getVlan_def Let_def
        split: option.splits if_splits sum.splits)
  from n have "a \<in> fst ` set (vlan_ndpTable dumpedVlan)"
    by (simp add: getEntryIf_def map_of_eq_None_iff)
  with g show ?thesis by (simp add: ndpAddresses_def)
qed

lemma set_update_subset: "set (AList.update k v al) \<subseteq> insert (k, v) (set al)"
  by (induction al) auto

lemma tablesFiltered_update:
  assumes "tablesFiltered dv tables"
    and "fst ` set (arpTable t) \<subseteq> arpAddresses dv v"
    and "fst ` set (ndpTable t) \<subseteq> ndpAddresses dv v"
  shows "tablesFiltered dv (AList.update v t tables)"
  unfolding tablesFiltered_def
proof
  fix p assume "p \<in> set (AList.update v t tables)"
  with set_update_subset [of v t tables] have "p = (v, t) \<or> p \<in> set tables" by auto
  then show "fst ` set (arpTable (snd p)) \<subseteq> arpAddresses dv (fst p) \<and>
        fst ` set (ndpTable (snd p)) \<subseteq> ndpAddresses dv (fst p)"
  proof
    assume "p = (v, t)"
    with assms(2,3) show ?thesis by simp
  next
    assume "p \<in> set tables"
    with assms(1) show ?thesis unfolding tablesFiltered_def by blast
  qed
qed

lemma tablesFiltered_lookup:
  assumes "tablesFiltered dv tables"
  shows "fst ` set (arpTable (case map_of tables v of None \<Rightarrow> \<lparr>arpTable = [], ndpTable = []\<rparr>
                                | Some t \<Rightarrow> t)) \<subseteq> arpAddresses dv v \<and>
         fst ` set (ndpTable (case map_of tables v of None \<Rightarrow> \<lparr>arpTable = [], ndpTable = []\<rparr>
                                | Some t \<Rightarrow> t)) \<subseteq> ndpAddresses dv v"
proof (cases "map_of tables v")
  case None
  then show ?thesis by simp
next
  case (Some t)
  then have "(v, t) \<in> set tables" by (rule map_of_SomeD)
  with assms Some show ?thesis by (force simp: tablesFiltered_def)
qed

lemma addNode_set: "addNode nodes k x = Inr nodes' \<Longrightarrow> fst ` set nodes' = insert k (fst ` set nodes)"
  by (auto simp: addNode_def split: if_splits)

lemma addNeighbor_filtered:
  assumes "tablesFiltered dv tables"
    and "case ip of V4 a \<Rightarrow> a \<in> arpAddresses dv v | V6 a \<Rightarrow> a \<in> ndpAddresses dv v"
    and "addNeighbor fl tables v ip e = Inr tables'"
  shows "tablesFiltered dv tables'"
proof -
  let ?t = "case map_of tables v of None \<Rightarrow> \<lparr>arpTable = [], ndpTable = []\<rparr> | Some t \<Rightarrow> t"
  note l = tablesFiltered_lookup [OF assms(1), of v]
  show ?thesis
  proof (cases ip)
    case (V4 a)
    with assms(3) obtain arp where
      a: "addNode (arpTable ?t) a (neighborFor fl e) = Inr arp" and
      t: "tables' = AList.update v (?t\<lparr>arpTable := arp\<rparr>) tables"
      by (auto simp: addNeighbor_def Let_def split: sum.splits)
    have "fst ` set arp \<subseteq> arpAddresses dv v"
      using addNode_set [OF a] l assms(2) V4 by simp
    then show ?thesis
      unfolding t using l by (intro tablesFiltered_update [OF assms(1)]) simp_all
  next
    case (V6 a)
    with assms(3) obtain ndp where
      a: "addNode (ndpTable ?t) a (neighborFor fl e) = Inr ndp" and
      t: "tables' = AList.update v (?t\<lparr>ndpTable := ndp\<rparr>) tables"
      by (auto simp: addNeighbor_def Let_def split: sum.splits)
    have "fst ` set ndp \<subseteq> ndpAddresses dv v"
      using addNode_set [OF a] l assms(2) V6 by simp
    then show ?thesis
      unfolding t using l by (intro tablesFiltered_update [OF assms(1)]) simp_all
  qed
qed

lemma addHosts_filtered:
  "tablesFiltered dv tables \<Longrightarrow>
   addHosts fl c (Some dv) hosts tables = Inr tables' \<Longrightarrow> tablesFiltered dv tables'"
proof (induction hosts arbitrary: tables)
  case Nil
  then show ?case by simp
next
  case (Cons h hosts)
  obtain vrf ip host where h: "h = ((vrf, ip), host)" by (cases h) auto
  show ?case
  proof (cases "hostToNeighbor c (Some dv) (vrf, ip)")
    case (Inl err)
    with Cons.prems(2) show ?thesis by (simp add: h)
  next
    case (Inr r)
    show ?thesis
    proof (cases r)
      case None
      with Cons.prems(2) Inr have "addHosts fl c (Some dv) hosts tables = Inr tables'"
        by (simp add: h)
      from Cons.IH [OF Cons.prems(1) this] show ?thesis .
    next
      case (Some ve)
      obtain v e where ve: "ve = (v, e)" by (cases ve)
      from Cons.prems(2) Inr Some ve obtain tables1 where
        a: "addNeighbor fl tables v ip e = Inr tables1" and
        r: "addHosts fl c (Some dv) hosts tables1 = Inr tables'"
        by (auto simp: h split: sum.splits)
      have ok: "case ip of V4 a \<Rightarrow> a \<in> arpAddresses dv v | V6 a \<Rightarrow> a \<in> ndpAddresses dv v"
      proof (cases ip)
        case (V4 a)
        with Inr Some ve show ?thesis by (simp add: hostToNeighbor_V4)
      next
        case (V6 a)
        with Inr Some ve show ?thesis by (simp add: hostToNeighbor_V6)
      qed
      from Cons.IH [OF addNeighbor_filtered [OF Cons.prems(1) ok a] r] show ?thesis .
    qed
  qed
qed

lemma addPort_tables:
  "vlan_arpTable (addPort vlan p tagged) = vlan_arpTable vlan"
  "vlan_ndpTable (addPort vlan p tagged) = vlan_ndpTable vlan"
  by (simp_all add: addPort_def)

lemma fold_addPort_tables:
  "vlan_arpTable (fold (\<lambda>idx v. if P idx then v else addPort v idx tagged) ps vlan) =
     vlan_arpTable vlan \<and>
   vlan_ndpTable (fold (\<lambda>idx v. if P idx then v else addPort v idx tagged) ps vlan) =
     vlan_ndpTable vlan"
  by (induction ps arbitrary: vlan) (simp_all add: addPort_tables)

lemma vlanFromInfo_tables:
  "vlan_arpTable (vlanFromInfo v info) = []" "vlan_ndpTable (vlanFromInfo v info) = []"
  using fold_addPort_tables [of "\<lambda>idx. False" False]
    fold_addPort_tables [of "\<lambda>idx. idx \<in> set (vi_untagged info)" True]
  by (simp_all add: vlanFromInfo_def Let_def newVlan_def)

lemma addVlans_filtered:
  "vlansFiltered dv vlans \<Longrightarrow> addVlans infos vlans = Inr vlans' \<Longrightarrow> vlansFiltered dv vlans'"
proof (induction infos arbitrary: vlans)
  case Nil
  then show ?case by simp
next
  case (Cons x infos)
  obtain v info where x: "x = (v, info)" by (cases x)
  from Cons.prems(2) obtain vlans1 where
    a: "addNode vlans v (vlanFromInfo v info) = Inr vlans1" and
    r: "addVlans infos vlans1 = Inr vlans'"
    by (auto simp: x split: sum.splits)
  from a have "vlans1 = vlans @ [(v, vlanFromInfo v info)]"
    by (auto simp: addNode_def split: if_splits)
  with Cons.prems(1) have "vlansFiltered dv vlans1"
    by (simp add: vlansFiltered_def vlanFromInfo_tables)
  from Cons.IH [OF this r] show ?case .
qed

lemma setAddrTables_filtered:
  "vlansFiltered dv vlans \<Longrightarrow> tablesFiltered dv tables \<Longrightarrow>
   setAddrTables tables vlans = Inr vlans' \<Longrightarrow> vlansFiltered dv vlans'"
proof (induction tables arbitrary: vlans)
  case Nil
  then show ?case by simp
next
  case (Cons x tables)
  obtain v t where x: "x = (v, t)" by (cases x)
  from Cons.prems(3) obtain vlan where
    g: "getVlanIf vlans v = Some vlan" and
    r: "setAddrTables tables
          (AList.update v (vlan\<lparr>vlan_arpTable := arpTable t, vlan_ndpTable := ndpTable t\<rparr>) vlans)
        = Inr vlans'"
    by (auto simp: x split: option.splits)
  from Cons.prems(2) have t: "fst ` set (arpTable t) \<subseteq> arpAddresses dv v"
    "fst ` set (ndpTable t) \<subseteq> ndpAddresses dv v" and rest: "tablesFiltered dv tables"
    by (simp_all add: tablesFiltered_def x)
  have "vlansFiltered dv
     (AList.update v (vlan\<lparr>vlan_arpTable := arpTable t, vlan_ndpTable := ndpTable t\<rparr>) vlans)"
    unfolding vlansFiltered_def
  proof
    fix p
    assume "p \<in> set (AList.update v
        (vlan\<lparr>vlan_arpTable := arpTable t, vlan_ndpTable := ndpTable t\<rparr>) vlans)"
    with set_update_subset have
      "p = (v, vlan\<lparr>vlan_arpTable := arpTable t, vlan_ndpTable := ndpTable t\<rparr>) \<or> p \<in> set vlans"
      by fastforce
    then show "fst ` set (vlan_arpTable (snd p)) \<subseteq> arpAddresses dv (fst p) \<and>
        fst ` set (vlan_ndpTable (snd p)) \<subseteq> ndpAddresses dv (fst p)"
    proof
      assume "p = (v, vlan\<lparr>vlan_arpTable := arpTable t, vlan_ndpTable := ndpTable t\<rparr>)"
      with t show ?thesis by simp
    next
      assume "p \<in> set vlans"
      with Cons.prems(1) show ?thesis unfolding vlansFiltered_def by blast
    qed
  qed
  from Cons.IH [OF this rest r] show ?case .
qed

text \<open>
  Claim C8 (as amended). When the persisted snapshot has a VLAN map and the
  VLAN reconstruction returns, every address in the reconstructed ARP table of
  a VLAN is an address of the ARP table of that VLAN in the snapshot, and
  likewise for the NDP tables. So a discovered host entry is promoted only if
  the snapshot lists its address as a neighbor on the VLAN of its egress
  object; a host entry without such a snapshot entry is not in the result. The
  code applies the filter inside \<open>if (dumpedVlans)\<close>: a snapshot whose VLAN
  map is null filters nothing.
\<close>

theorem reconstructVlanMap_neighbor_filter:
  assumes "dumpedSwSwitchState c = Some st" and "getVlans st = Some dumpedVlans"
    and "reconstructVlanMap fl c = Inr vlans"
  shows "arpAddresses vlans v \<subseteq> arpAddresses dumpedVlans v \<and>
         ndpAddresses vlans v \<subseteq> ndpAddresses dumpedVlans v"
proof -
  from assms obtain vlans0 tables where
    a: "addVlans (vlan2VlanInfo c) [] = Inr vlans0" and
    h: "addHosts fl c (Some dumpedVlans) (vrfIp2Host c) [] = Inr tables" and
    s: "setAddrTables tables vlans0 = Inr vlans"
    by (auto simp: reconstructVlanMap_def Let_def split: sum.splits)
  have "vlansFiltered dumpedVlans []" by (simp add: vlansFiltered_def)
  from addVlans_filtered [OF this a] have v0: "vlansFiltered dumpedVlans vlans0" .
  have "tablesFiltered dumpedVlans []" by (simp add: tablesFiltered_def)
  from addHosts_filtered [OF this h] have t: "tablesFiltered dumpedVlans tables" .
  from setAddrTables_filtered [OF v0 t s] have f: "vlansFiltered dumpedVlans vlans" .
  show ?thesis
  proof (cases "map_of vlans v")
    case None
    then show ?thesis by (simp add: arpAddresses_def ndpAddresses_def)
  next
    case (Some vlan)
    then have "(v, vlan) \<in> set vlans" by (rule map_of_SomeD)
    with f have "fst ` set (vlan_arpTable vlan) \<subseteq> arpAddresses dumpedVlans v \<and>
        fst ` set (vlan_ndpTable vlan) \<subseteq> ndpAddresses dumpedVlans v"
      by (force simp: vlansFiltered_def)
    then show ?thesis
      unfolding arpAddresses_def [of vlans] ndpAddresses_def [of vlans] Some by simp
  qed
qed

text \<open>
  C8 on the example: host 10.0.0.5 is a neighbor of VLAN 2 in the snapshot and
  is promoted; host 10.0.0.9, whose egress object is on VLAN 2 as well, is not
  in the snapshot and is dropped.
\<close>

theorem reconstructVlanMap_neighbor_filter_witness:
  "reconstructVlanMap exampleFlags exampleWarmCache =
     Inr [(1, \<lparr> vlan_id = 1, vlan_name = [], vlan_ports = [], vlan_interfaceID = 0,
                 vlan_arpTable = [], vlan_ndpTable = [] \<rparr>),
          (2, \<lparr> vlan_id = 2, vlan_name = [], vlan_ports = [(1, False), (2, True)],
                 vlan_interfaceID = 2,
                 vlan_arpTable = [(0x0A000005, ResolvedEntry 0x020000000001 1 2 UNVERIFIED)],
                 vlan_ndpTable = [] \<rparr>)] \<and>
   arpAddresses
     [(1, \<lparr> vlan_id = 1, vlan_name = [], vlan_ports = [], vlan_interfaceID = 0,
                 vlan_arpTable = [], vlan_ndpTable = [] \<rparr>),
      (2, \<lparr> vlan_id = 2, vlan_name = [], vlan_ports = [(1, False), (2, True)],
                 vlan_interfaceID = 2,
                 vlan_arpTable = [(0x0A000005, ResolvedEntry 0x020000000001 1 2 UNVERIFIED)],
                 vlan_ndpTable = [] \<rparr>)] 2
     \<subseteq> arpAddresses
         [(1, newVlan 1 ''default''),
          (2, (newVlan 2 ''vlan2'')
                \<lparr>vlan_arpTable :=
                   [(0x0A000005, ResolvedEntry 0x020000000001 1 2 REACHABLE)]\<rparr>)] 2 \<and>
   0x0A000009 \<notin> arpAddresses
     [(1, \<lparr> vlan_id = 1, vlan_name = [], vlan_ports = [], vlan_interfaceID = 0,
                 vlan_arpTable = [], vlan_ndpTable = [] \<rparr>),
      (2, \<lparr> vlan_id = 2, vlan_name = [], vlan_ports = [(1, False), (2, True)],
                 vlan_interfaceID = 2,
                 vlan_arpTable = [(0x0A000005, ResolvedEntry 0x020000000001 1 2 UNVERIFIED)],
                 vlan_ndpTable = [] \<rparr>)] 2"
proof -
  let ?vlans = "[(1 :: VlanID, \<lparr> vlan_id = 1, vlan_name = [], vlan_ports = [],
                 vlan_interfaceID = 0, vlan_arpTable = [], vlan_ndpTable = [] \<rparr>),
          (2, \<lparr> vlan_id = 2, vlan_name = [], vlan_ports = [(1, False), (2, True)],
                 vlan_interfaceID = 2,
                 vlan_arpTable = [(0x0A000005, ResolvedEntry 0x020000000001 1 2 UNVERIFIED)],
                 vlan_ndpTable = [] \<rparr>)]"
  let ?dumped = "[(1 :: VlanID, newVlan 1 ''default''),
          (2, (newVlan 2 ''vlan2'')
                \<lparr>vlan_arpTable :=
                   [(0x0A000005, ResolvedEntry 0x020000000001 1 2 REACHABLE)]\<rparr>)]"
  have s: "dumpedSwSwitchState exampleWarmCache = Some exampleSwitchState"
    by (simp add: exampleWarmCache_def)
  have g: "getVlans exampleSwitchState = Some ?dumped"
    by (simp add: exampleSwitchState_def)
  have f: "vlan2VlanInfo exampleWarmCache =
         [(1, \<lparr>vi_vlan = 1, vi_untagged = [], vi_allPorts = [], vi_intfID = 0\<rparr>),
          (2, \<lparr>vi_vlan = 2, vi_untagged = [1], vi_allPorts = [1, 2], vi_intfID = 2\<rparr>)]"
    "vrfIp2Host exampleWarmCache =
         [((0, V4 0x0A000005), exampleHost 0x0A000005 100002),
          ((0, V4 0x0A000009), exampleHost 0x0A000009 100003)]"
    "egressId2EgressAndBool exampleWarmCache =
         [(100002, (exampleEgress 0 2, False)), (100003, (exampleEgress 0 2, False))]"
    by (simp_all add: exampleWarmCache_def exampleCache_def)
  have v: "addVlans (vlan2VlanInfo exampleWarmCache) [] =
     Inr [(1, \<lparr> vlan_id = 1, vlan_name = [], vlan_ports = [], vlan_interfaceID = 0,
                 vlan_arpTable = [], vlan_ndpTable = [] \<rparr>),
          (2, \<lparr> vlan_id = 2, vlan_name = [], vlan_ports = [(1, False), (2, True)],
                 vlan_interfaceID = 2, vlan_arpTable = [], vlan_ndpTable = [] \<rparr>)]"
    by (simp add: f addNode_def vlanFromInfo_def newVlan_def addPort_def Let_def)
  have h1: "hostToNeighbor exampleWarmCache (Some ?dumped) (0, V4 0x0A000005) =
      Inr (Some (2, exampleEgress 0 2))"
    by (simp add: hostToNeighbor_def findEgress_def f exampleHost_def exampleEgress_def
        kVlanForCPUEgressEntries_def getVlan_def getEntryIf_def newVlan_def Let_def)
  have h2: "hostToNeighbor exampleWarmCache (Some ?dumped) (0, V4 0x0A000009) = Inr None"
    by (simp add: hostToNeighbor_def findEgress_def f exampleHost_def exampleEgress_def
        kVlanForCPUEgressEntries_def getVlan_def getEntryIf_def newVlan_def Let_def)
  have t: "addHosts exampleFlags exampleWarmCache (Some ?dumped) (vrfIp2Host exampleWarmCache) [] =
     Inr [(2, \<lparr>arpTable = [(0x0A000005, ResolvedEntry 0x020000000001 1 2 UNVERIFIED)],
               ndpTable = []\<rparr>)]"
    by (simp add: f(2) h1 h2 addNeighbor_def addNode_def neighborFor_def programmedToDrop_def
        exampleEgress_def exampleFlags_def)
  have r: "reconstructVlanMap exampleFlags exampleWarmCache = Inr ?vlans"
    by (simp add: reconstructVlanMap_def s g v t getVlanIf_def)
  from reconstructVlanMap_neighbor_filter [OF s g r, of 2]
  have 1: "arpAddresses ?vlans 2 \<subseteq> arpAddresses ?dumped 2" ..
  have 2: "0x0A000009 \<notin> arpAddresses ?vlans 2"
    by (simp add: arpAddresses_def)
  show ?thesis by (intro conjI r 1 2)
qed

text \<open>
  Claim C8 as stated fails when the VLAN map of the snapshot is null: the
  filter is skipped. On the example cache with such a snapshot both host
  entries are promoted to the ARP table of VLAN 2, 10.0.0.9 among them, for
  which the snapshot has no neighbor entry.
\<close>

theorem reconstructVlanMap_null_vlan_map_counterexample:
  "getVlans (exampleSwitchState\<lparr>getVlans := None\<rparr>) = None \<and>
   reconstructVlanMap exampleFlags
     (exampleWarmCache\<lparr>dumpedSwSwitchState := Some (exampleSwitchState\<lparr>getVlans := None\<rparr>)\<rparr>) =
     Inr [(1, \<lparr> vlan_id = 1, vlan_name = [], vlan_ports = [], vlan_interfaceID = 0,
                 vlan_arpTable = [], vlan_ndpTable = [] \<rparr>),
          (2, \<lparr> vlan_id = 2, vlan_name = [], vlan_ports = [(1, False), (2, True)],
                 vlan_interfaceID = 2,
                 vlan_arpTable = [(0x0A000005, ResolvedEntry 0x020000000001 1 2 UNVERIFIED),
                                  (0x0A000009, ResolvedEntry 0x020000000001 1 2 UNVERIFIED)],
                 vlan_ndpTable = [] \<rparr>)] \<and>
   0x0A000009 \<in> arpAddresses
     [(1, \<lparr> vlan_id = 1, vlan_name = [], vlan_ports = [], vlan_interfaceID = 0,
                 vlan_arpTable = [], vlan_ndpTable = [] \<rparr>),
      (2, \<lparr> vlan_id = 2, vlan_name = [], vlan_ports = [(1, False), (2, True)],
                 vlan_interfaceID = 2,
                 vlan_arpTable = [(0x0A000005, ResolvedEntry 0x020000000001 1 2 UNVERIFIED),
                                  (0x0A000009, ResolvedEntry 0x020000000001 1 2 UNVERIFIED)],
                 vlan_ndpTable = [] \<rparr>)] 2"
proof -
  define c where "c = exampleWarmCache
     \<lparr>dumpedSwSwitchState := Some (exampleSwitchState\<lparr>getVlans := None\<rparr>)\<rparr>"
  let ?vlans = "[(1 :: VlanID, \<lparr> vlan_id = 1, vlan_name = [], vlan_ports = [],
                 vlan_interfaceID = 0, vlan_arpTable = [], vlan_ndpTable = [] \<rparr>),
          (2, \<lparr> vlan_id = 2, vlan_name = [], vlan_ports = [(1, False), (2, True)],
                 vlan_interfaceID = 2,
                 vlan_arpTable = [(0x0A000005, ResolvedEntry 0x020000000001 1 2 UNVERIFIED),
                                  (0x0A000009, ResolvedEntry 0x020000000001 1 2 UNVERIFIED)],
                 vlan_ndpTable = [] \<rparr>)]"
  have g: "getVlans (exampleSwitchState\<lparr>getVlans := None\<rparr>) = None"
    by simp
  have s: "dumpedSwSwitchState c = Some (exampleSwitchState\<lparr>getVlans := None\<rparr>)"
    by (simp add: c_def)
  have f: "vlan2VlanInfo c =
         [(1, \<lparr>vi_vlan = 1, vi_untagged = [], vi_allPorts = [], vi_intfID = 0\<rparr>),
          (2, \<lparr>vi_vlan = 2, vi_untagged = [1], vi_allPorts = [1, 2], vi_intfID = 2\<rparr>)]"
    "vrfIp2Host c =
         [((0, V4 0x0A000005), exampleHost 0x0A000005 100002),
          ((0, V4 0x0A000009), exampleHost 0x0A000009 100003)]"
    "egressId2EgressAndBool c =
         [(100002, (exampleEgress 0 2, False)), (100003, (exampleEgress 0 2, False))]"
    by (simp_all add: c_def exampleWarmCache_def exampleCache_def)
  have v: "addVlans (vlan2VlanInfo c) [] =
     Inr [(1, \<lparr> vlan_id = 1, vlan_name = [], vlan_ports = [], vlan_interfaceID = 0,
                 vlan_arpTable = [], vlan_ndpTable = [] \<rparr>),
          (2, \<lparr> vlan_id = 2, vlan_name = [], vlan_ports = [(1, False), (2, True)],
                 vlan_interfaceID = 2, vlan_arpTable = [], vlan_ndpTable = [] \<rparr>)]"
    by (simp add: f addNode_def vlanFromInfo_def newVlan_def addPort_def Let_def)
  have h1: "hostToNeighbor c None (0, V4 0x0A000005) = Inr (Some (2, exampleEgress 0 2))"
    by (simp add: hostToNeighbor_def findEgress_def f exampleHost_def exampleEgress_def
        kVlanForCPUEgressEntries_def Let_def)
  have h2: "hostToNeighbor c None (0, V4 0x0A000009) = Inr (Some (2, exampleEgress 0 2))"
    by (simp add: hostToNeighbor_def findEgress_def f exampleHost_def exampleEgress_def
        kVlanForCPUEgressEntries_def Let_def)
  have t: "addHosts exampleFlags c None (vrfIp2Host c) [] =
     Inr [(2, \<lparr>arpTable = [(0x0A000005, ResolvedEntry 0x020000000001 1 2 UNVERIFIED),
                           (0x0A000009, ResolvedEntry 0x020000000001 1 2 UNVERIFIED)],
               ndpTable = []\<rparr>)]"
    by (simp add: f(2) h1 h2 addNeighbor_def addNode_def neighborFor_def programmedToDrop_def
        exampleEgress_def exampleFlags_def)
  have "reconstructVlanMap exampleFlags c = Inr ?vlans"
    by (simp add: reconstructVlanMap_def s g v t getVlanIf_def)
  then have r: "reconstructVlanMap exampleFlags
     (exampleWarmCache\<lparr>dumpedSwSwitchState := Some (exampleSwitchState\<lparr>getVlans := None\<rparr>)\<rparr>) =
     Inr ?vlans"
    unfolding c_def .
  have m: "0x0A000009 \<in> arpAddresses ?vlans 2"
    by (simp add: arpAddresses_def)
  show ?thesis by (intro conjI g r m)
qed

section \<open>Verified properties: serialization round trip\<close>

lemma bindE_Inr [simp]: "bindE (Inr a) f = f a"
  by (simp add: bindE_def)

lemma bindE_Inl [simp]: "bindE (Inl e) f = Inl e"
  by (simp add: bindE_def)

lemma pathsOf_insertPath:
  "pathsOf (insertPath m e p) e' = (if e' = e then insert p (pathsOf m e) else pathsOf m e')"
  by (auto simp: pathsOf_def insertPath_def update_conv' set_insort_insert split: option.splits)

lemma isEgressId_round_trip:
  assumes "isEgressId e"
  shows "asInt toInt64 (fromEgressId e) = Inr e" and "toEgressId e = e"
proof -
  from assms have "- (2 ^ 63) \<le> e" and "e < 2 ^ 63" and "- (2 ^ 31) \<le> e" and "e < 2 ^ 31"
    by (simp_all add: isEgressId_def)
  then have "signed_take_bit 63 e = e" and "signed_take_bit 31 e = e"
    by (simp_all only: signed_take_bit_int_eq_self)
  then show "asInt toInt64 (fromEgressId e) = Inr e" and "toEgressId e = e"
    by (simp_all add: fromEgressId_def toEgressId_def sint_sbintrunc')
qed

lemma insertPaths_ints:
  assumes "isEgressId e"
  shows "\<forall>p \<in> set ps. isEgressId p \<Longrightarrow>
     insertPaths toInt64 e (map fromEgressId ps) m = Inr (fold (\<lambda>p m. insertPath m e p) ps m)"
  using assms by (induction ps arbitrary: m) (simp_all add: isEgressId_round_trip)

lemma pathsOf_fold_insertPath:
  "pathsOf (fold (\<lambda>p m. insertPath m e p) ps m) e' =
     (if e' = e then set ps \<union> pathsOf m e else pathsOf m e')"
  by (induction ps arbitrary: m) (auto simp: pathsOf_insertPath)

lemma ecmpToFollyDynamic_fields:
  assumes "kEcmpEgressId ks \<noteq> kPaths ks"
  shows "dynAt (ecmpToFollyDynamic ks (e, ids)) (kEcmpEgressId ks) = Inr (fromEgressId e)"
    and "dynAt (ecmpToFollyDynamic ks (e, ids)) (kPaths ks) = Inr (DArray (map fromEgressId ids))"
  using assms by (auto simp: ecmpToFollyDynamic_def)

lemma loadEcmpObjects_serialized:
  assumes k: "kEcmpEgressId ks \<noteq> kPaths ks"
  shows "INVALID \<notin> fst ` set xs \<Longrightarrow>
     \<forall>x \<in> set xs. isEgressId (fst x) \<and> (\<forall>p \<in> set (snd x). isEgressId p) \<Longrightarrow>
     \<exists>m'. loadEcmpObjects ks toInt64 (map (ecmpToFollyDynamic ks) xs) m = Inr m' \<and>
          (\<forall>e. pathsOf m' e = pathsOf m e \<union> (\<Union>x \<in> {x \<in> set xs. fst x = e}. set (snd x)))"
proof (induction xs arbitrary: m)
  case Nil
  show ?case by simp
next
  case (Cons x xs)
  obtain e ids where x: "x = (e, ids)" by (cases x)
  from Cons.prems(1) have v: "e \<noteq> INVALID" and r: "INVALID \<notin> fst ` set xs"
    by (auto simp: x)
  from Cons.prems(2) have ie: "isEgressId e" and ip: "\<forall>p \<in> set ids. isEgressId p"
    and ir: "\<forall>x \<in> set xs. isEgressId (fst x) \<and> (\<forall>p \<in> set (snd x). isEgressId p)"
    by (simp_all add: x)
  let ?m1 = "fold (\<lambda>p m. insertPath m e p) ids m"
  have step: "loadEcmpObjects ks toInt64 (map (ecmpToFollyDynamic ks) (x # xs)) m =
      loadEcmpObjects ks toInt64 (map (ecmpToFollyDynamic ks) xs) ?m1"
    using v by (simp add: x ecmpToFollyDynamic_fields [OF k] isEgressId_round_trip(1) [OF ie]
        insertPaths_ints [OF ie ip])
  from Cons.IH [OF r ir, of ?m1] obtain m' where
    m': "loadEcmpObjects ks toInt64 (map (ecmpToFollyDynamic ks) xs) ?m1 = Inr m'"
      "\<forall>e'. pathsOf m' e' = pathsOf ?m1 e' \<union> (\<Union>x \<in> {x \<in> set xs. fst x = e'}. set (snd x))"
    by blast
  have "pathsOf m' e' = pathsOf m e' \<union> (\<Union>x \<in> {y \<in> set (x # xs). fst y = e'}. set (snd x))" for e'
  proof (cases "e' = e")
    case True
    have "{y \<in> set (x # xs). fst y = e} = insert x {y \<in> set xs. fst y = e}"
      by (auto simp: x)
    then show ?thesis
      using m'(2) True by (auto simp: pathsOf_fold_insertPath x)
  next
    case False
    then have "{y \<in> set (x # xs). fst y = e'} = {y \<in> set xs. fst y = e'}"
      by (auto simp: x)
    then show ?thesis
      using m'(2) False by (simp add: pathsOf_fold_insertPath)
  qed
  with m'(1) show ?case unfolding step by blast
qed

lemma pathsOf_Nil [simp]: "pathsOf [] e = {}"
  by (simp add: pathsOf_def)

lemma pathsOf_distinct:
  assumes "distinct (map fst xs)"
  shows "(\<Union>x \<in> {x \<in> set xs. fst x = e}. set (snd x)) = pathsOf xs e"
proof (cases "map_of xs e")
  case None
  then have e: "{x \<in> set xs. fst x = e} = {}"
    by (force simp: map_of_eq_None_iff)
  show ?thesis unfolding e pathsOf_def None by simp
next
  case (Some ids)
  have e: "{x \<in> set xs. fst x = e} = {(e, ids)}"
  proof (rule set_eqI)
    fix x
    show "x \<in> {x \<in> set xs. fst x = e} \<longleftrightarrow> x \<in> {(e, ids)}"
    proof
      assume "x \<in> {x \<in> set xs. fst x = e}"
      then have "(e, snd x) \<in> set xs" and f: "fst x = e" by auto
      from map_of_is_SomeI [OF assms this(1)] Some have "snd x = ids" by simp
      with f show "x \<in> {(e, ids)}" by (cases x) simp
    next
      assume "x \<in> {(e, ids)}"
      with map_of_SomeD [OF Some] show "x \<in> {x \<in> set xs. fst x = e}" by simp
    qed
  qed
  show ?thesis unfolding e pathsOf_def Some by simp
qed

text \<open>
  Claim C9 (as amended). Take an ECMP path map with no entry under the invalid
  id, serialize it with \<open>toFollyDynamic\<close>, and let the loader of the next cycle,
  starting from an empty map, read a warm boot file that holds the serialized
  form as its warm boot cache. The loader reads the ECMP hosts of the dumped
  host table into the same map first. When these decode, into the map \<open>m1\<close>,
  the loader returns, sets the populated flag, and the path set it holds for a
  group id is the union of the path set of the serialized map and of the paths
  that \<open>m1\<close> has for that id. Hence the loader reproduces the same path set for
  every group id exactly when the host table lists no path that the map lacks.
\<close>

theorem ecmp_paths_round_trip:
  assumes "kSwSwitch ks \<noteq> kHwSwitch ks" and "kHostTable ks \<noteq> kWarmBootCache ks"
    and "kEcmpEgressId ks \<noteq> kPaths ks"
    and "uniquePtrFromFollyDynamic sw = Some st"
    and "ecmpMapValid (hwSwitchEcmp2EgressIds c)"
    and "hwSwitchEcmp2EgressIds c0 = []"
    and "loadEcmpHosts ks toInt64 ecmpHosts [] = Inr m1"
  shows "\<exists>c'. populateStateFromWarmbootFile ks uniquePtrFromFollyDynamic toInt64
                 (warmBootFile ks sw ecmpHosts (toFollyDynamic ks c)) c0 = Inr c' \<and>
              hwSwitchEcmp2EgressIdsPopulated c' \<and>
              (\<forall>e. pathsOf (hwSwitchEcmp2EgressIds c') e =
                     pathsOf m1 e \<union> pathsOf (hwSwitchEcmp2EgressIds c) e) \<and>
              ((\<forall>e. pathsOf (hwSwitchEcmp2EgressIds c') e =
                      pathsOf (hwSwitchEcmp2EgressIds c) e) \<longleftrightarrow>
               (\<forall>e. pathsOf m1 e \<subseteq> pathsOf (hwSwitchEcmp2EgressIds c) e))"
proof -
  from assms(5) have d: "distinct (map fst (hwSwitchEcmp2EgressIds c))"
    and i: "INVALID \<notin> fst ` set (hwSwitchEcmp2EgressIds c)"
    and w: "\<forall>x \<in> set (hwSwitchEcmp2EgressIds c).
              isEgressId (fst x) \<and> (\<forall>p \<in> set (snd x). isEgressId p)"
    by (simp_all add: ecmpMapValid_def)
  from loadEcmpObjects_serialized [OF assms(3) i w, of toInt64 m1] obtain m' where
    l: "loadEcmpObjects ks toInt64
          (map (ecmpToFollyDynamic ks) (hwSwitchEcmp2EgressIds c)) m1 = Inr m'"
    and p: "\<forall>e. pathsOf m' e =
        pathsOf m1 e \<union> (\<Union>x \<in> {x \<in> set (hwSwitchEcmp2EgressIds c). fst x = e}. set (snd x))"
    by auto
  have r: "populateStateFromWarmbootFile ks uniquePtrFromFollyDynamic toInt64
          (warmBootFile ks sw ecmpHosts (toFollyDynamic ks c)) c0 =
        Inr (c0\<lparr>dumpedSwSwitchState := Some st, hwSwitchEcmp2EgressIdsPopulated := True,
                hwSwitchEcmp2EgressIds := m'\<rparr>)"
    using assms(1,2,4,6,7) l
    by (simp add: populateStateFromWarmbootFile_def warmBootFile_def toFollyDynamic_def Let_def)
  have u: "pathsOf m' e = pathsOf m1 e \<union> pathsOf (hwSwitchEcmp2EgressIds c) e" for e
    using p unfolding pathsOf_distinct [OF d] by blast
  have "(\<forall>e. pathsOf m' e = pathsOf (hwSwitchEcmp2EgressIds c) e) \<longleftrightarrow>
        (\<forall>e. pathsOf m1 e \<subseteq> pathsOf (hwSwitchEcmp2EgressIds c) e)"
    unfolding u by blast
  with r u show ?thesis by simp
qed

text \<open>
  C9 on a map with two groups, read back from a file whose host table lists
  group 5 with the one path 10: the loaded map is the serialized one.
\<close>

theorem ecmp_paths_round_trip_witness:
  "populateStateFromWarmbootFile exampleKeys (\<lambda>d. Some exampleSwitchState)
     (\<lambda>s. Inl (TypeError ''asInt''))
     (warmBootFile exampleKeys DNull
        [DObject [(''ecmpEgressId'', DInt 5),
                  (''ecmpEgress'', DObject [(''paths'', DArray [DInt 10])])]]
        (toFollyDynamic exampleKeys
           (BcmWarmBootCache_ctor\<lparr>hwSwitchEcmp2EgressIdsPopulated := True,
              hwSwitchEcmp2EgressIds := [(5, [10, 11]), (200256, [100002, 100003])]\<rparr>)))
     BcmWarmBootCache_ctor
   = Inr (BcmWarmBootCache_ctor\<lparr>dumpedSwSwitchState := Some exampleSwitchState,
            hwSwitchEcmp2EgressIdsPopulated := True,
            hwSwitchEcmp2EgressIds := [(5, [10, 11]), (200256, [100002, 100003])]\<rparr>) \<and>
   (\<exists>c'. populateStateFromWarmbootFile exampleKeys (\<lambda>d. Some exampleSwitchState)
     (\<lambda>s. Inl (TypeError ''asInt''))
     (warmBootFile exampleKeys DNull
        [DObject [(''ecmpEgressId'', DInt 5),
                  (''ecmpEgress'', DObject [(''paths'', DArray [DInt 10])])]]
        (toFollyDynamic exampleKeys
           (BcmWarmBootCache_ctor\<lparr>hwSwitchEcmp2EgressIdsPopulated := True,
              hwSwitchEcmp2EgressIds := [(5, [10, 11]), (200256, [100002, 100003])]\<rparr>)))
     BcmWarmBootCache_ctor = Inr c' \<and>
     pathsOf (hwSwitchEcmp2EgressIds c') 5 = {10, 11} \<and>
     pathsOf (hwSwitchEcmp2EgressIds c') 200256 = {100002, 100003})"
proof -
  let ?m = "[(5 :: EgressId, [10 :: EgressId, 11]), (200256, [100002, 100003])]"
  let ?c = "BcmWarmBootCache_ctor\<lparr>hwSwitchEcmp2EgressIdsPopulated := True,
              hwSwitchEcmp2EgressIds := ?m\<rparr>"
  let ?hosts = "[DObject [(''ecmpEgressId'', DInt 5),
                  (''ecmpEgress'', DObject [(''paths'', DArray [DInt 10])])]]"
  let ?conv = "\<lambda>s :: string. Inl (TypeError ''asInt'') :: error + 64 word"
  have k: "kSwSwitch exampleKeys \<noteq> kHwSwitch exampleKeys"
    "kHostTable exampleKeys \<noteq> kWarmBootCache exampleKeys"
    "kEcmpEgressId exampleKeys \<noteq> kPaths exampleKeys"
    by (simp_all add: exampleKeys_def)
  have u: "(\<lambda>d. Some exampleSwitchState) DNull = Some exampleSwitchState" by simp
  have m: "hwSwitchEcmp2EgressIds ?c = ?m" by simp
  have v: "ecmpMapValid (hwSwitchEcmp2EgressIds ?c)"
    by (simp add: ecmpMapValid_def INVALID_def isEgressId_def)
  have z: "hwSwitchEcmp2EgressIds BcmWarmBootCache_ctor = []"
    by (simp add: BcmWarmBootCache_ctor_def populatedInitially_def)
  have ii: "insort_insert (10 :: int) [] = [10]" "insort_insert (10 :: int) [10] = [10]"
    "insort_insert (11 :: int) [10] = [10, 11]" "insort_insert (100002 :: int) [] = [100002]"
    "insort_insert (100003 :: int) [100002] = [100002, 100003]"
    by (simp_all add: insort_insert_key_def)
  have h: "loadEcmpHosts exampleKeys ?conv ?hosts [] = Inr [(5, [10])]"
    by (simp add: exampleKeys_def INVALID_def insertPath_def toEgressId_def ii)
  from ecmp_paths_round_trip [OF k u v z h] obtain c' where
    c': "populateStateFromWarmbootFile exampleKeys (\<lambda>d. Some exampleSwitchState) ?conv
           (warmBootFile exampleKeys DNull ?hosts (toFollyDynamic exampleKeys ?c))
           BcmWarmBootCache_ctor = Inr c'"
    and p: "\<forall>e. pathsOf (hwSwitchEcmp2EgressIds c') e =
                 pathsOf [(5, [10])] e \<union> pathsOf (hwSwitchEcmp2EgressIds ?c) e"
    by blast
  have "pathsOf (hwSwitchEcmp2EgressIds c') 5 = {10, 11}"
    and "pathsOf (hwSwitchEcmp2EgressIds c') 200256 = {100002, 100003}"
    using p [rule_format, of 5] p [rule_format, of 200256] by (auto simp: pathsOf_def)
  with c' have 2: "\<exists>c'. populateStateFromWarmbootFile exampleKeys (\<lambda>d. Some exampleSwitchState)
           ?conv (warmBootFile exampleKeys DNull ?hosts (toFollyDynamic exampleKeys ?c))
           BcmWarmBootCache_ctor = Inr c' \<and>
         pathsOf (hwSwitchEcmp2EgressIds c') 5 = {10, 11} \<and>
         pathsOf (hwSwitchEcmp2EgressIds c') 200256 = {100002, 100003}"
    by blast
  have 1: "populateStateFromWarmbootFile exampleKeys (\<lambda>d. Some exampleSwitchState) ?conv
           (warmBootFile exampleKeys DNull ?hosts (toFollyDynamic exampleKeys ?c))
           BcmWarmBootCache_ctor
     = Inr (BcmWarmBootCache_ctor\<lparr>dumpedSwSwitchState := Some exampleSwitchState,
            hwSwitchEcmp2EgressIdsPopulated := True, hwSwitchEcmp2EgressIds := ?m\<rparr>)"
    by (simp add: populateStateFromWarmbootFile_def warmBootFile_def toFollyDynamic_def
        ecmpToFollyDynamic_def exampleKeys_def kEcmpObjects_def Let_def INVALID_def
        insertPath_def fromEgressId_def toEgressId_def BcmWarmBootCache_ctor_def
        populatedInitially_def ii)
  show ?thesis by (intro conjI 1 2)
qed

text \<open>
  Claim C9 as stated fails when the dumped host table lists other paths. The
  map holds group 5 with the paths 10 and 11; the host table of the file lists
  group 5 with path 12 and group 7 with path 1. The loader returns a map in
  which group 5 has the paths 10, 11 and 12 and group 7 has the path 1.
\<close>

theorem ecmp_round_trip_merges_host_table_counterexample:
  "populateStateFromWarmbootFile exampleKeys (\<lambda>d. Some exampleSwitchState)
     (\<lambda>s. Inl (TypeError ''asInt''))
     (warmBootFile exampleKeys DNull
        [DObject [(''ecmpEgressId'', DInt 5),
                  (''ecmpEgress'', DObject [(''paths'', DArray [DInt 12])])],
         DObject [(''ecmpEgressId'', DInt 7),
                  (''ecmpEgress'', DObject [(''paths'', DArray [DInt 1])])]]
        (toFollyDynamic exampleKeys
           (BcmWarmBootCache_ctor\<lparr>hwSwitchEcmp2EgressIdsPopulated := True,
              hwSwitchEcmp2EgressIds := [(5, [10, 11])]\<rparr>)))
     BcmWarmBootCache_ctor
   = Inr (BcmWarmBootCache_ctor\<lparr>dumpedSwSwitchState := Some exampleSwitchState,
            hwSwitchEcmp2EgressIdsPopulated := True,
            hwSwitchEcmp2EgressIds := [(5, [10, 11, 12]), (7, [1])]\<rparr>) \<and>
   pathsOf [(5, [10, 11])] 5 = {10, 11} \<and>
   pathsOf [(5, [10, 11, 12]), (7, [1])] 5 = {10, 11, 12} \<and>
   pathsOf [(5, [10, 11])] 7 = {} \<and>
   pathsOf [(5, [10, 11, 12]), (7, [1])] 7 = {1}"
proof -
  have ii: "insort_insert (12 :: int) [] = [12]" "insort_insert (1 :: int) [] = [1]"
    "insort_insert (10 :: int) [12] = [10, 12]" "insort_insert (11 :: int) [10, 12] = [10, 11, 12]"
    by (simp_all add: insort_insert_key_def)
  have 1: "populateStateFromWarmbootFile exampleKeys (\<lambda>d. Some exampleSwitchState)
     (\<lambda>s. Inl (TypeError ''asInt''))
     (warmBootFile exampleKeys DNull
        [DObject [(''ecmpEgressId'', DInt 5),
                  (''ecmpEgress'', DObject [(''paths'', DArray [DInt 12])])],
         DObject [(''ecmpEgressId'', DInt 7),
                  (''ecmpEgress'', DObject [(''paths'', DArray [DInt 1])])]]
        (toFollyDynamic exampleKeys
           (BcmWarmBootCache_ctor\<lparr>hwSwitchEcmp2EgressIdsPopulated := True,
              hwSwitchEcmp2EgressIds := [(5, [10, 11])]\<rparr>)))
     BcmWarmBootCache_ctor
   = Inr (BcmWarmBootCache_ctor\<lparr>dumpedSwSwitchState := Some exampleSwitchState,
            hwSwitchEcmp2EgressIdsPopulated := True,
            hwSwitchEcmp2EgressIds := [(5, [10, 11, 12]), (7, [1])]\<rparr>)"
    by (simp add: populateStateFromWarmbootFile_def warmBootFile_def toFollyDynamic_def
        ecmpToFollyDynamic_def exampleKeys_def kEcmpObjects_def Let_def INVALID_def
        insertPath_def fromEgressId_def toEgressId_def BcmWarmBootCache_ctor_def
        populatedInitially_def ii)
  have 2: "pathsOf [(5, [10, 11])] 5 = {10 :: EgressId, 11}"
    "pathsOf [(5, [10, 11, 12]), (7, [1])] 5 = {10 :: EgressId, 11, 12}"
    "pathsOf [(5, [10 :: EgressId, 11])] 7 = {}"
    "pathsOf [(5, [10, 11, 12]), (7, [1])] 7 = {1 :: EgressId}"
    by (simp_all add: pathsOf_def)
  show ?thesis by (intro conjI 1 2)
qed

end
